theory Spec2Isabelle
  imports Main "HOL-Library.AList" "HOL-Library.Dlist" "HOL-Library.List_Lexorder" "HOL-Library.Char_ord"
begin

section \<open>Shared helpers\<close>

text \<open>
  Errors of the JavaScript run time that the modelled code can raise: reading a property of
  \<^verbatim>\<open>undefined\<close> (TypeError) and a failed \<^verbatim>\<open>assert.ok\<close> (AssertionError).
\<close>

datatype error = TypeError | AssertionError

text \<open>
  Modelled from the spec: \<^verbatim>\<open>sorter(key, 'DSC')\<close> of util/helpers, which is not among
  the sources; the spec says "descending (most recent first)". It is the comparison given
  to \<^verbatim>\<open>Array.prototype.sort\<close>, which is stable: elements with equal keys keep their
  order. Keys are strings, compared as JavaScript compares them (lexicographically).
\<close>

fun insert_dsc :: "('a \<Rightarrow> string) \<Rightarrow> 'a \<Rightarrow> 'a list \<Rightarrow> 'a list" where
  "insert_dsc key x [] = [x]"
| "insert_dsc key x (y # ys) =
     (if key y \<le> key x then x # y # ys else y # insert_dsc key x ys)"

definition sort_dsc :: "('a \<Rightarrow> string) \<Rightarrow> 'a list \<Rightarrow> 'a list" where
  "sort_dsc key xs = foldr (insert_dsc key) xs []"

section \<open>Deal generator (src/lib/engine/deal-generator/actions.ts)\<close>

subsection \<open>Data model\<close>

text \<open>
  The stages named by the source are EVAL, CLOSED_WON and CLOSED_LOST; the spec allows
  "other active stages", kept here as one more constructor.
\<close>

datatype DealStage = EVAL | CLOSED_WON | CLOSED_LOST | OTHER_STAGE string

record DealData =
  dealStage :: DealStage
  addonLicenseId :: string
  transactionId :: "string option"
  otherProperties :: "(string \<times> string) list"

text \<open>\<^verbatim>\<open>Partial<DealData>\<close>: a field is present when it is \<open>Some\<close>.\<close>

record PartialDealData =
  changedDealStage :: "DealStage option"
  changedAddonLicenseId :: "string option"
  changedTransactionId :: "string option option"
  changedOtherProperties :: "(string \<times> string) list option"

text \<open>
  Modelled from the spec: the class \<^verbatim>\<open>Deal\<close> of model/deal, which is not among the
  sources. The spec says "a Deal tracks pending property changes versus its last-synced
  snapshot" (the field \<open>synced\<close>) and names the computed flag "has activity". A deal is a
  mutable object, used as a key of maps and a member of sets by its identity: a deal
  reference stands for the identity, and the heap maps it to the object.
\<close>

type_synonym DealRef = nat

record Deal =
  dealId :: "string option"
  data :: DealData
  synced :: DealData
  hasActivity :: bool

record License =
  active :: bool
  licenseAddonLicenseId :: string
  maintenanceStartDate :: string

record Transaction =
  txAddonLicenseId :: string
  txTransactionId :: string

datatype Record = LicenseRecord License | TransactionRecord Transaction

type_synonym RelatedLicenseSet = "(License \<times> Transaction list) list"

datatype DealRelevantEvent =
    EvalEvent RelatedLicenseSet "License list"
  | PurchaseEvent RelatedLicenseSet "License list" "Transaction option"
  | RenewalEvent RelatedLicenseSet Transaction
  | UpgradeEvent RelatedLicenseSet Transaction
  | RefundEvent RelatedLicenseSet "Transaction list"

datatype Action =
    CreateDealAction RelatedLicenseSet DealData
  | UpdateDealAction RelatedLicenseSet DealRef PartialDealData
  | NoDealAction RelatedLicenseSet DealRef

datatype LogEntry =
    WarnDuplicates "DealRef list"
  | ErrorUpdatingDealTwice "DealRelevantEvent option" DealRelevantEvent DealRef

record DealManager =
  live :: "DealRef set"
  duplicatesToDelete :: "DealRef \<rightharpoonup> DealRef set"

text \<open>
  The state an \<^verbatim>\<open>ActionGenerator\<close> works on: the deal objects, its deal manager, its
  private map \<^verbatim>\<open>#handledDeals\<close> and what it has written to the log.
\<close>

record ActionGenerator =
  heap :: "DealRef \<Rightarrow> Deal"
  dealManager :: DealManager
  handledDeals :: "DealRef \<rightharpoonup> DealRelevantEvent"
  logged :: "LogEntry list"

text \<open>
  Collaborators whose code is not among the sources, taken as parameters:
  \<^verbatim>\<open>DealManager.getDealsForRecords\<close> (it returns a \<^verbatim>\<open>Set<Deal>\<close>: distinct deals in
  insertion order), and what \<^verbatim>\<open>updateDeal\<close> and \<^verbatim>\<open>dealCreationProperties\<close> (records.ts)
  compute from a license or transaction.
\<close>

record Collaborators =
  getDealsForRecords :: "DealManager \<Rightarrow> Record list \<Rightarrow> DealRef dlist"
  updateProperties :: "Record \<Rightarrow> DealData \<Rightarrow> DealData"
  creationProperties :: "Record \<Rightarrow> (string \<times> string) list"

subsection \<open>Methods of Deal, DealManager and records.ts\<close>

text \<open>Modelled from the spec: \<^verbatim>\<open>Deal.isEval\<close>, "matched deal is currently in EVAL stage".\<close>

definition isEval :: "Deal \<Rightarrow> bool" where
  "isEval d = (dealStage (data d) = EVAL)"

text \<open>
  Modelled from the spec: \<^verbatim>\<open>Deal.getPropertyChanges\<close> and \<^verbatim>\<open>Deal.hasPropertyChanges\<close>,
  "diffs against last-synced snapshot; if no properties actually changed, returns Noop,
  else returns Update with only the changed properties".
\<close>

definition getPropertyChanges :: "Deal \<Rightarrow> PartialDealData" where
  "getPropertyChanges d =
     \<lparr> changedDealStage =
         (if dealStage (data d) = dealStage (synced d) then None
          else Some (dealStage (data d))),
       changedAddonLicenseId =
         (if addonLicenseId (data d) = addonLicenseId (synced d) then None
          else Some (addonLicenseId (data d))),
       changedTransactionId =
         (if transactionId (data d) = transactionId (synced d) then None
          else Some (transactionId (data d))),
       changedOtherProperties =
         (if otherProperties (data d) = otherProperties (synced d) then None
          else Some (otherProperties (data d))) \<rparr>"

definition noChanges :: PartialDealData where
  "noChanges =
     \<lparr> changedDealStage = None, changedAddonLicenseId = None,
       changedTransactionId = None, changedOtherProperties = None \<rparr>"

definition hasPropertyChanges :: "Deal \<Rightarrow> bool" where
  "hasPropertyChanges d = (getPropertyChanges d \<noteq> noChanges)"

text \<open>
  Modelled from the spec: \<^verbatim>\<open>updateDeal(deal, record)\<close> "mutates the deal's editable
  properties in place from the record without touching identity or stage".
\<close>

definition updateDeal :: "Collaborators \<Rightarrow> Deal \<Rightarrow> Record \<Rightarrow> Deal" where
  "updateDeal c d r =
     d\<lparr>data := (updateProperties c r (data d))\<lparr>dealStage := dealStage (data d)\<rparr>\<rparr>"

text \<open>
  Modelled from the spec: \<^verbatim>\<open>dealCreationProperties(record, {dealStage, addonLicenseId,
  transactionId})\<close> "builds the full property set for a new deal from a license or
  transaction record".
\<close>

definition dealCreationProperties ::
  "Collaborators \<Rightarrow> Record \<Rightarrow> DealStage \<Rightarrow> string \<Rightarrow> string option \<Rightarrow> DealData" where
  "dealCreationProperties c r stage addon tx =
     \<lparr> dealStage = stage, addonLicenseId = addon, transactionId = tx,
       otherProperties = creationProperties c r \<rparr>"

text \<open>Modelled from the spec: \<^verbatim>\<open>removeLocally(deals)\<close> "(evict from live set)".\<close>

definition removeLocally :: "DealRef list \<Rightarrow> DealManager \<Rightarrow> DealManager" where
  "removeLocally toDelete m = m\<lparr>live := live m - set toDelete\<rparr>"

subsection \<open>Duplicate resolution\<close>

text \<open>
  The loop at the end of \<^verbatim>\<open>singleDeal\<close>: each deleted deal gets the kept deal added to its
  set in \<^verbatim>\<open>duplicatesToDelete\<close>; a new set is made when the deal has none yet.
\<close>

definition addDuplicate ::
  "DealRef \<Rightarrow> DealRef \<Rightarrow> (DealRef \<rightharpoonup> DealRef set) \<Rightarrow> (DealRef \<rightharpoonup> DealRef set)" where
  "addDuplicate dealToUse deal dups =
     dups(deal \<mapsto> insert dealToUse (case dups deal of None \<Rightarrow> {} | Some dupOf \<Rightarrow> dupOf))"

definition recordDuplicates :: "DealRef \<Rightarrow> DealRef list \<Rightarrow> DealManager \<Rightarrow> DealManager" where
  "recordDuplicates dealToUse toDelete m =
     m\<lparr>duplicatesToDelete := fold (addDuplicate dealToUse) toDelete (duplicatesToDelete m)\<rparr>"

text \<open>
  The branch \<^verbatim>\<open>foundDeals.size > 1\<close> up to the call of \<^verbatim>\<open>removeLocally\<close>: the deal to
  use, the list \<^verbatim>\<open>toDelete\<close> and the warnings logged, for the found deals \<open>first # rest\<close>.
\<close>

definition resolveDuplicates ::
  "(DealRef \<Rightarrow> Deal) \<Rightarrow> DealRef \<Rightarrow> DealRef list \<Rightarrow> DealRef \<times> DealRef list \<times> LogEntry list" where
  "resolveDuplicates h first rest =
     (let foundDeals = first # rest;
          importantDeals = filter (\<lambda>d. hasActivity (h d)) foundDeals
      in case importantDeals of
           [] \<Rightarrow> (first, rest, [])
         | important # _ \<Rightarrow>
             (important,
              filter (\<lambda>deal. deal \<notin> set importantDeals) foundDeals,
              if length importantDeals > 1 then [WarnDuplicates importantDeals] else []))"

definition singleDeal :: "DealRef dlist \<Rightarrow> ActionGenerator \<Rightarrow> DealRef option \<times> ActionGenerator" where
  "singleDeal foundDeals s =
     (case list_of_dlist foundDeals of
        [] \<Rightarrow> (None, s)
      | [deal] \<Rightarrow> (Some deal, s)
      | first # rest \<Rightarrow>
          (case resolveDuplicates (heap s) first rest of
             (dealToUse, toDelete, warnings) \<Rightarrow>
               (Some dealToUse,
                s\<lparr>dealManager :=
                     recordDuplicates dealToUse toDelete (removeLocally toDelete (dealManager s)),
                   logged := logged s @ warnings\<rparr>)))"

subsection \<open>Actions\<close>

fun groupsOf :: "DealRelevantEvent \<Rightarrow> RelatedLicenseSet" where
  "groupsOf (EvalEvent g _) = g"
| "groupsOf (PurchaseEvent g _ _) = g"
| "groupsOf (RenewalEvent g _) = g"
| "groupsOf (UpgradeEvent g _) = g"
| "groupsOf (RefundEvent g _) = g"

definition recordSeen :: "DealRef \<Rightarrow> DealRelevantEvent \<Rightarrow> ActionGenerator \<Rightarrow> ActionGenerator" where
  "recordSeen deal event s =
     (if handledDeals s deal \<noteq> None
      then s\<lparr>logged := logged s @ [ErrorUpdatingDealTwice (handledDeals s deal) event deal]\<rparr>
      else s\<lparr>handledDeals := (handledDeals s)(deal \<mapsto> event)\<rparr>)"

definition makeCreateAction ::
  "Collaborators \<Rightarrow> DealRelevantEvent \<Rightarrow> Record \<Rightarrow> DealStage \<Rightarrow> string \<Rightarrow> string option \<Rightarrow> Action" where
  "makeCreateAction c event r stage addon tx =
     CreateDealAction (groupsOf event) (dealCreationProperties c r stage addon tx)"

text \<open>
  \<^verbatim>\<open>makeUpdateAction(event, deal, record, dealstage?)\<close>: \<open>record\<close> is \<open>None\<close> for
  \<^verbatim>\<open>null\<close> or \<^verbatim>\<open>undefined\<close>, \<open>dealstage\<close> is \<open>None\<close> when the argument is left out.
  The deal object is changed in place, so the new state is returned with the action.
\<close>

definition makeUpdateAction ::
  "Collaborators \<Rightarrow> DealRelevantEvent \<Rightarrow> DealRef \<Rightarrow> Record option \<Rightarrow> DealStage option \<Rightarrow>
     ActionGenerator \<Rightarrow> Action \<times> ActionGenerator" where
  "makeUpdateAction c event deal record dealstage s =
     (let d0 = heap s deal;
          d1 = (case dealstage of None \<Rightarrow> d0
                | Some stage \<Rightarrow> d0\<lparr>data := (data d0)\<lparr>dealStage := stage\<rparr>\<rparr>);
          d2 = (case record of None \<Rightarrow> d1 | Some r \<Rightarrow> updateDeal c d1 r);
          s' = s\<lparr>heap := (heap s)(deal := d2)\<rparr>
      in if \<not> hasPropertyChanges d2
         then (NoDealAction (groupsOf event) deal, s')
         else (UpdateDealAction (groupsOf event) deal (getPropertyChanges d2), s'))"

definition getLatestLicense :: "License list \<Rightarrow> License option" where
  "getLatestLicense licenses =
     (case sort_dsc maintenanceStartDate licenses of [] \<Rightarrow> None | l # _ \<Rightarrow> Some l)"

definition evalStage :: "License list \<Rightarrow> DealStage" where
  "evalStage licenses = (if list_ex active licenses then EVAL else CLOSED_LOST)"

text \<open>
  \<^verbatim>\<open>actionForEval\<close>. \<^verbatim>\<open>event.licenses[event.licenses.length - 1]\<close> is \<^verbatim>\<open>undefined\<close>
  for an empty list; reading its \<^verbatim>\<open>data\<close> for a new deal then throws a TypeError, while
  \<^verbatim>\<open>makeUpdateAction\<close> takes it as no record.
\<close>

definition actionForEval ::
  "Collaborators \<Rightarrow> RelatedLicenseSet \<Rightarrow> License list \<Rightarrow> ActionGenerator \<Rightarrow>
     error + Action \<times> ActionGenerator" where
  "actionForEval c g licenses s =
     (let event = EvalEvent g licenses;
          latestLicense = (if licenses = [] then None else Some (last licenses))
      in case singleDeal (getDealsForRecords c (dealManager s) (map LicenseRecord licenses)) s of
           (None, s1) \<Rightarrow>
             (case latestLicense of
                None \<Rightarrow> Inl TypeError
              | Some l \<Rightarrow>
                  Inr (makeCreateAction c event (LicenseRecord l)
                         (evalStage licenses) (licenseAddonLicenseId l) None, s1))
         | (Some deal, s1) \<Rightarrow>
             (let s2 = recordSeen deal event s1
              in if isEval (heap s2 deal)
                 then Inr (makeUpdateAction c event deal (map_option LicenseRecord latestLicense)
                             (Some (evalStage licenses)) s2)
                 else Inr (makeUpdateAction c event deal (map_option LicenseRecord latestLicense)
                             None s2)))"

definition actionForPurchase ::
  "Collaborators \<Rightarrow> RelatedLicenseSet \<Rightarrow> License list \<Rightarrow> Transaction option \<Rightarrow> ActionGenerator \<Rightarrow>
     error + Action \<times> ActionGenerator" where
  "actionForPurchase c g licenses transaction s =
     (let event = PurchaseEvent g licenses transaction;
          recordsToSearch =
            (case transaction of None \<Rightarrow> [] | Some t \<Rightarrow> [TransactionRecord t])
            @ map LicenseRecord licenses
      in case singleDeal (getDealsForRecords c (dealManager s) recordsToSearch) s of
           (Some deal, s1) \<Rightarrow>
             (let s2 = recordSeen deal event s1;
                  license = (case transaction of
                               Some t \<Rightarrow> Some (TransactionRecord t)
                             | None \<Rightarrow> map_option LicenseRecord (getLatestLicense licenses));
                  stage = (if isEval (heap s2 deal) then CLOSED_WON
                           else dealStage (data (heap s2 deal)))
              in Inr (makeUpdateAction c event deal license (Some stage) s2))
         | (None, s1) \<Rightarrow>
             (case transaction of
                Some t \<Rightarrow>
                  Inr (makeCreateAction c event (TransactionRecord t)
                         CLOSED_WON (txAddonLicenseId t) (Some (txTransactionId t)), s1)
              | None \<Rightarrow>
                  (case getLatestLicense licenses of
                     None \<Rightarrow> Inl TypeError
                   | Some l \<Rightarrow>
                       Inr (makeCreateAction c event (LicenseRecord l)
                              CLOSED_WON (licenseAddonLicenseId l) None, s1))))"

text \<open>\<^verbatim>\<open>actionForRenewal\<close>, for a renewal or an upgrade event \<open>event\<close> with its transaction.\<close>

definition actionForRenewal ::
  "Collaborators \<Rightarrow> DealRelevantEvent \<Rightarrow> Transaction \<Rightarrow> ActionGenerator \<Rightarrow>
     Action \<times> ActionGenerator" where
  "actionForRenewal c event transaction s =
     (case singleDeal (getDealsForRecords c (dealManager s) [TransactionRecord transaction]) s of
        (Some deal, s1) \<Rightarrow>
          makeUpdateAction c event deal (Some (TransactionRecord transaction)) None
            (recordSeen deal event s1)
      | (None, s1) \<Rightarrow>
          (makeCreateAction c event (TransactionRecord transaction)
             CLOSED_WON (txAddonLicenseId transaction) (Some (txTransactionId transaction)), s1))"

text \<open>
  The \<^verbatim>\<open>map\<close> of \<^verbatim>\<open>actionsForRefund\<close>: one call of \<^verbatim>\<open>makeUpdateAction\<close> with a null
  record and the stage CLOSED_LOST for each deal, in order.
\<close>

fun refundUpdates ::
  "Collaborators \<Rightarrow> DealRelevantEvent \<Rightarrow> DealRef list \<Rightarrow> ActionGenerator \<Rightarrow>
     Action list \<times> ActionGenerator" where
  "refundUpdates c event [] s = ([], s)"
| "refundUpdates c event (deal # deals) s =
     (case makeUpdateAction c event deal None (Some CLOSED_LOST) s of
        (a, s1) \<Rightarrow> (case refundUpdates c event deals s1 of (as, s2) \<Rightarrow> (a # as, s2)))"

definition actionsForRefund ::
  "Collaborators \<Rightarrow> RelatedLicenseSet \<Rightarrow> Transaction list \<Rightarrow> ActionGenerator \<Rightarrow>
     Action list \<times> ActionGenerator" where
  "actionsForRefund c g refundedTxs s =
     (let event = RefundEvent g refundedTxs;
          deals = list_of_dlist
                    (getDealsForRecords c (dealManager s) (map TransactionRecord refundedTxs));
          s1 = fold (\<lambda>deal. recordSeen deal event) deals s
      in refundUpdates c event
           (filter (\<lambda>deal. dealStage (data (heap s1 deal)) \<noteq> CLOSED_LOST) deals) s1)"

fun actionsFor ::
  "Collaborators \<Rightarrow> DealRelevantEvent \<Rightarrow> ActionGenerator \<Rightarrow>
     error + Action list \<times> ActionGenerator" where
  "actionsFor c (EvalEvent g licenses) s =
     (case actionForEval c g licenses s of
        Inl e \<Rightarrow> Inl e | Inr (a, s') \<Rightarrow> Inr ([a], s'))"
| "actionsFor c (PurchaseEvent g licenses transaction) s =
     (case actionForPurchase c g licenses transaction s of
        Inl e \<Rightarrow> Inl e | Inr (a, s') \<Rightarrow> Inr ([a], s'))"
| "actionsFor c (RenewalEvent g transaction) s =
     (case actionForRenewal c (RenewalEvent g transaction) transaction s of
        (a, s') \<Rightarrow> Inr ([a], s'))"
| "actionsFor c (UpgradeEvent g transaction) s =
     (case actionForRenewal c (UpgradeEvent g transaction) transaction s of
        (a, s') \<Rightarrow> Inr ([a], s'))"
| "actionsFor c (RefundEvent g refundedTxs) s = Inr (actionsForRefund c g refundedTxs s)"

fun generateFrom ::
  "Collaborators \<Rightarrow> DealRelevantEvent list \<Rightarrow> ActionGenerator \<Rightarrow>
     error + Action list \<times> ActionGenerator" where
  "generateFrom c [] s = Inr ([], s)"
| "generateFrom c (event # events) s =
     (case actionsFor c event s of
        Inl e \<Rightarrow> Inl e
      | Inr (as, s1) \<Rightarrow>
          (case generateFrom c events s1 of
             Inl e \<Rightarrow> Inl e
           | Inr (bs, s2) \<Rightarrow> Inr (as @ bs, s2)))"

text \<open>
  The list \<^verbatim>\<open>toDelete\<close> that \<^verbatim>\<open>singleDeal\<close> passes to \<^verbatim>\<open>removeLocally\<close> and
  records in \<^verbatim>\<open>duplicatesToDelete\<close>; empty when neither is reached.
\<close>

definition toDeleteOf :: "DealRef dlist \<Rightarrow> ActionGenerator \<Rightarrow> DealRef list" where
  "toDeleteOf foundDeals s =
     (case list_of_dlist foundDeals of
        [] \<Rightarrow> []
      | [deal] \<Rightarrow> []
      | first # rest \<Rightarrow> fst (snd (resolveDuplicates (heap s) first rest)))"

text \<open>What a run of an action returns, for reading single components of it.\<close>

definition resultAction :: "error + Action \<times> ActionGenerator \<Rightarrow> Action option" where
  "resultAction r = (case r of Inl e \<Rightarrow> None | Inr (a, s) \<Rightarrow> Some a)"

definition resultDeal :: "error + Action \<times> ActionGenerator \<Rightarrow> DealRef \<Rightarrow> Deal option" where
  "resultDeal r deal = (case r of Inl e \<Rightarrow> None | Inr (a, s) \<Rightarrow> Some (heap s deal))"

text \<open>
  A deal whose last-synced stage is CLOSED_LOST is still in CLOSED_LOST. It holds of every
  deal without pending changes, and every action of the generator keeps it (lemma
  \<open>generateFrom_consistent\<close> below): no action moves a deal out of CLOSED_LOST. For such a
  deal a refund never ends in a Noop.
\<close>

definition lostStaysLost :: "Deal \<Rightarrow> bool" where
  "lostStaysLost d = (dealStage (synced d) = CLOSED_LOST \<longrightarrow> dealStage (data d) = CLOSED_LOST)"

definition stagesConsistent :: "ActionGenerator \<Rightarrow> bool" where
  "stagesConsistent s = (\<forall>deal. lostStaysLost (heap s deal))"

text \<open>The deal after \<^verbatim>\<open>deal.data.dealStage = DealStage.CLOSED_LOST\<close>.\<close>

definition closeLost :: "Deal \<Rightarrow> Deal" where
  "closeLost d = d\<lparr>data := (data d)\<lparr>dealStage := CLOSED_LOST\<rparr>\<rparr>"

section \<open>Contact generator (second document of src/unnamed/part_001)\<close>

subsection \<open>Data model\<close>

text \<open>
  One contact block of a license or transaction: \<^verbatim>\<open>{email, name?, phone?, city?, state?}\<close>.
\<close>

record ContactInfo =
  infoEmail :: string
  infoName :: "string option"
  infoPhone :: "string option"
  infoCity :: "string option"
  infoState :: "string option"

text \<open>
  \<^verbatim>\<open>license.contactDetails\<close> and \<^verbatim>\<open>transaction.customerDetails\<close>. A license or
  transaction has \<^verbatim>\<open>partnerDetails\<close> or not; when it has, they hold a billing contact.
\<close>

record ContactDetails =
  technicalContact :: ContactInfo
  billingContact :: "ContactInfo option"
  detailsCountry :: string
  detailsRegion :: string

record MarketplaceLicense =
  contactDetails :: ContactDetails
  licensePartnerBillingContact :: "ContactInfo option"
  licenseHosting :: string
  lastUpdated :: string

record MarketplaceTransaction =
  customerDetails :: ContactDetails
  transactionPartnerBillingContact :: "ContactInfo option"
  purchaseHosting :: string
  saleDate :: string

text \<open>
  A generated contact. \<^verbatim>\<open>contact_type\<close> is the string \<^verbatim>\<open>'Customer'\<close> or
  \<^verbatim>\<open>'Partner'\<close>. The last four fields are the ones the final assertion wants
  \<^verbatim>\<open>undefined\<close>; a field is \<^verbatim>\<open>undefined\<close> when it is \<open>None\<close>.
\<close>

record GeneratedContact =
  email :: string
  firstname :: "string option"
  lastname :: "string option"
  phone :: "string option"
  city :: "string option"
  state :: "string option"
  company_id :: "string option"
  contact_type :: string
  country :: string
  region :: string
  hosting :: string
  deployment :: "string option"
  last_mpac_event :: "string option"
  license_tier :: "string option"
  related_products :: "string option"

record TmpContact = GeneratedContact +
  updated :: string

text \<open>An initial contact: its primary email and its alias emails.\<close>

record Contact =
  contactEmail :: string
  otherEmails :: "string list"

text \<open>
  Functions that are not among the sources, taken as parameters: \<^verbatim>\<open>capitalize.words\<close> of
  the package capitalize, and \<^verbatim>\<open>nonBlankString\<close> of util/helpers.
\<close>

record TextHelpers =
  capitalizeWords :: "string \<Rightarrow> string"
  nonBlankString :: "string option \<Rightarrow> string option"

subsection \<open>Strings\<close>

text \<open>
  \<^verbatim>\<open>[first, ...rest] = s.split(sep)\<close> for a separator of one character: the piece before
  the first separator and the list of the pieces after it. \<^verbatim>\<open>split\<close> never returns an
  empty array, so there always is a first piece.
\<close>

fun splitOn :: "char \<Rightarrow> string \<Rightarrow> string \<times> string list" where
  "splitOn sep [] = ([], [])"
| "splitOn sep (c # cs) =
     (case splitOn sep cs of
        (w, ws) \<Rightarrow> if c = sep then ([], w # ws) else (c # w, ws))"

text \<open>\<^verbatim>\<open>xs.join(sep)\<close>.\<close>

fun joinWith :: "string \<Rightarrow> string list \<Rightarrow> string" where
  "joinWith sep [] = []"
| "joinWith sep [x] = x"
| "joinWith sep (x # y # ys) = x @ sep @ joinWith sep (y # ys)"

definition isAsciiLetter :: "char \<Rightarrow> bool" where
  "isAsciiLetter c =
     ((CHR ''a'' \<le> c \<and> c \<le> CHR ''z'') \<or> (CHR ''A'' \<le> c \<and> c \<le> CHR ''Z''))"

text \<open>
  \<^verbatim>\<open>s.replace(/(.)\.([a-zA-Z]{2})/g, '$1_$2')\<close>: from left to right, a character that is
  not a line terminator, followed by a dot and two letters, has its dot replaced by an
  underscore, and the search goes on after the two letters. Strings here are lists of
  8-bit characters, so the line terminators are line feed and carriage return.
\<close>

fun nameUrlReplace :: "string \<Rightarrow> string" where
  "nameUrlReplace (c # d # e # f # rest) =
     (if c \<noteq> CHR 0x0A \<and> c \<noteq> CHR 0x0D \<and> d = CHR ''.'' \<and> isAsciiLetter e \<and> isAsciiLetter f
      then c # CHR ''_'' # e # f # nameUrlReplace rest
      else c # nameUrlReplace (d # e # f # rest))"
| "nameUrlReplace s = s"

text \<open>JavaScript truthiness of a value that is a string, \<^verbatim>\<open>null\<close> or \<^verbatim>\<open>undefined\<close>.\<close>

definition truthy :: "string option \<Rightarrow> bool" where
  "truthy v = (case v of None \<Rightarrow> False | Some s \<Rightarrow> s \<noteq> [])"

subsection \<open>Normalization\<close>

text \<open>\<^verbatim>\<open>v ? capitalize.words(v) : null\<close>.\<close>

definition capitalizedOrNull :: "TextHelpers \<Rightarrow> string option \<Rightarrow> string option" where
  "capitalizedOrNull h v =
     (case v of None \<Rightarrow> None
      | Some s \<Rightarrow> if s = [] then None else Some (capitalizeWords h s))"

text \<open>
  \<^verbatim>\<open>{...mapCommonFields(info, partnerDomains), country, region, hosting, updated}\<close>: the
  common fields of a contact together with the four fields that \<^verbatim>\<open>mapLicenseSpecificFields\<close>
  or \<^verbatim>\<open>mapTransactionSpecificFields\<close> supply.
\<close>

definition mapCommonFields ::
  "TextHelpers \<Rightarrow> ContactInfo \<Rightarrow> string set \<Rightarrow> string \<Rightarrow> string \<Rightarrow> string \<Rightarrow> string \<Rightarrow> TmpContact" where
  "mapCommonFields h info partnerDomains ctry reg host upd =
     (case splitOn CHR '' '' (case infoName info of
                                None \<Rightarrow> '' ''
                              | Some name \<Rightarrow> if name = [] then '' '' else name) of
        (firstName0, lastNameGroup) \<Rightarrow>
          let lastName0 = joinWith '' '' (filter (\<lambda>n. n \<noteq> []) lastNameGroup);
              firstName = nameUrlReplace firstName0;
              lastName = nameUrlReplace lastName0;
              domain = (case snd (splitOn CHR ''@'' (infoEmail info)) of
                          [] \<Rightarrow> None | d # _ \<Rightarrow> Some d)
          in \<lparr> email = infoEmail info,
               firstname = nonBlankString h (Some (capitalizeWords h firstName)),
               lastname = nonBlankString h (Some (capitalizeWords h lastName)),
               phone = nonBlankString h (infoPhone info),
               city = nonBlankString h (capitalizedOrNull h (infoCity info)),
               state = nonBlankString h (capitalizedOrNull h (infoState info)),
               company_id = None,
               contact_type =
                 (if (case domain of None \<Rightarrow> False | Some d \<Rightarrow> d \<in> partnerDomains)
                  then ''Partner'' else ''Customer''),
               country = ctry, region = reg, hosting = host,
               deployment = None, last_mpac_event = None, license_tier = None,
               related_products = None,
               updated = upd \<rparr>)"

definition contactsOf ::
  "TextHelpers \<Rightarrow> string set \<Rightarrow> ContactDetails \<Rightarrow> ContactInfo option \<Rightarrow> string \<Rightarrow> string \<Rightarrow>
     TmpContact list" where
  "contactsOf h partnerDomains details partnerBilling host upd =
     (let mk = (\<lambda>info. mapCommonFields h info partnerDomains
                  (capitalizeWords h (detailsCountry details)) (detailsRegion details) host upd)
      in (if infoEmail (technicalContact details) \<noteq> []
          then [mk (technicalContact details)] else [])
       @ (case billingContact details of
            None \<Rightarrow> []
          | Some b \<Rightarrow> if infoEmail b \<noteq> [] then [mk b] else [])
       @ (case partnerBilling of
            None \<Rightarrow> []
          | Some p \<Rightarrow> if infoEmail p \<noteq> [] then [(mk p)\<lparr>contact_type := ''Partner''\<rparr>] else []))"

definition normalizeContacts ::
  "TextHelpers \<Rightarrow> MarketplaceLicense list \<Rightarrow> MarketplaceTransaction list \<Rightarrow> string set \<Rightarrow>
     TmpContact list" where
  "normalizeContacts h licenses transactions partnerDomains =
     concat (map (\<lambda>license. contactsOf h partnerDomains (contactDetails license)
                    (licensePartnerBillingContact license) (licenseHosting license)
                    (lastUpdated license)) licenses)
     @ concat (map (\<lambda>transaction. contactsOf h partnerDomains (customerDetails transaction)
                    (transactionPartnerBillingContact transaction) (purchaseHosting transaction)
                    (saleDate transaction)) transactions)"

subsection \<open>Merging\<close>

text \<open>
  \<^verbatim>\<open>mergeContactProperties(primaryEmail, contacts)\<close> sorts the array in place and changes
  its first element \<^verbatim>\<open>ideal\<close> in place; the array after the call is returned. Each
  \<^verbatim>\<open>find\<close> and \<^verbatim>\<open>some\<close> runs over the array as it is at that moment, with the ideal
  contact as changed so far at its head. An empty array has no first element, and the
  assignment to \<^verbatim>\<open>ideal.email\<close> throws a TypeError.
\<close>

definition mergeContactType :: "TmpContact \<Rightarrow> TmpContact list \<Rightarrow> TmpContact" where
  "mergeContactType ideal others =
     (if contact_type ideal = ''Customer''
         \<and> list_ex (\<lambda>c. contact_type c = ''Partner'') (ideal # others)
      then ideal\<lparr>contact_type := ''Partner''\<rparr> else ideal)"

definition mergeName :: "TmpContact \<Rightarrow> TmpContact list \<Rightarrow> TmpContact" where
  "mergeName ideal others =
     (case find (\<lambda>c. truthy (firstname c) \<and> truthy (lastname c)) (ideal # others) of
        Some hasName \<Rightarrow> ideal\<lparr>firstname := firstname hasName, lastname := lastname hasName\<rparr>
      | None \<Rightarrow>
          (let ideal1 = (case find (\<lambda>c. truthy (firstname c)) (ideal # others) of
                           Some hasFirstName \<Rightarrow> ideal\<lparr>firstname := firstname hasFirstName\<rparr>
                         | None \<Rightarrow> ideal)
           in case find (\<lambda>c. truthy (lastname c)) (ideal1 # others) of
                Some hasLastName \<Rightarrow> ideal1\<lparr>lastname := lastname hasLastName\<rparr>
              | None \<Rightarrow> ideal1))"

definition mergePhone :: "TmpContact \<Rightarrow> TmpContact list \<Rightarrow> TmpContact" where
  "mergePhone ideal others =
     (case find (\<lambda>c. truthy (phone c)) (ideal # others) of
        Some hasPhone \<Rightarrow> ideal\<lparr>phone := phone hasPhone\<rparr>
      | None \<Rightarrow> ideal)"

definition mergeAddress :: "TmpContact \<Rightarrow> TmpContact list \<Rightarrow> TmpContact" where
  "mergeAddress ideal others =
     (case find (\<lambda>c. truthy (city c) \<and> truthy (state c)) (ideal # others) of
        Some hasAddress \<Rightarrow> ideal\<lparr>city := city hasAddress, state := state hasAddress\<rparr>
      | None \<Rightarrow>
          (let ideal1 = (case find (\<lambda>c. truthy (city c)) (ideal # others) of
                           Some hasCity \<Rightarrow> ideal\<lparr>city := city hasCity\<rparr>
                         | None \<Rightarrow> ideal)
           in case find (\<lambda>c. truthy (state c)) (ideal1 # others) of
                Some hasState \<Rightarrow> ideal1\<lparr>state := state hasState\<rparr>
              | None \<Rightarrow> ideal1))"

definition mergeContactProperties :: "string \<Rightarrow> TmpContact list \<Rightarrow> error + TmpContact list" where
  "mergeContactProperties primaryEmail contacts =
     (case sort_dsc updated contacts of
        [] \<Rightarrow> Inl TypeError
      | ideal # others \<Rightarrow>
          Inr (mergeAddress
                 (mergePhone
                    (mergeName
                       (mergeContactType (ideal\<lparr>email := primaryEmail\<rparr>) others)
                       others)
                    others)
                 others
               # others))"

text \<open>
  The \<^verbatim>\<open>Map<string, TmpContact[]>\<close> of \<^verbatim>\<open>mergeDuplicateContacts\<close>, in insertion order.
  \<^verbatim>\<open>map.get\<close> is \<open>map_of\<close>, \<^verbatim>\<open>map.set\<close> is \<open>AList.update\<close>, \<^verbatim>\<open>map.delete\<close> is
  \<open>AList.delete\<close>, and a \<^verbatim>\<open>push\<close> on the array stored under a key is \<open>AList.map_entry\<close>.
\<close>

type_synonym ContactMap = "(string \<times> TmpContact list) list"

definition addContact :: "TmpContact \<Rightarrow> ContactMap \<Rightarrow> ContactMap" where
  "addContact contact m =
     AList.map_entry (email contact) (\<lambda>contacts. contacts @ [contact])
       (if map_of m (email contact) = None then AList.update (email contact) [] m else m)"

text \<open>
  One round of the inner loop: the group of the alias \<open>other\<close>, when there is one, is
  deleted from the map and pushed onto \<^verbatim>\<open>primarySet\<close>. \<^verbatim>\<open>primarySet\<close> is the array stored
  under the primary email, so the push shows in the map as long as that entry is there;
  when the alias is the primary email itself, the entry is deleted and the push goes to an
  array the map no longer holds.
\<close>

definition foldAlias :: "string \<Rightarrow> string \<Rightarrow> ContactMap \<Rightarrow> ContactMap" where
  "foldAlias primaryEmail other m =
     (case map_of m other of
        None \<Rightarrow> m
      | Some otherSet \<Rightarrow>
          AList.map_entry primaryEmail (\<lambda>primarySet. primarySet @ otherSet)
            (AList.delete other m))"

text \<open>The body of the loop over \<^verbatim>\<open>initialContacts\<close>, for one initial contact.\<close>

definition mergeAliasesOf :: "Contact \<Rightarrow> ContactMap \<Rightarrow> error + ContactMap" where
  "mergeAliasesOf contact m =
     (if otherEmails contact = [] then Inr m
      else case map_of m (contactEmail contact) of
             Some primarySet \<Rightarrow> Inr (fold (foldAlias (contactEmail contact)) (otherEmails contact) m)
           | None \<Rightarrow>
               if list_all (\<lambda>other. map_of m other = None) (otherEmails contact)
               then Inr m else Inl AssertionError)"

fun mergeAllAliases :: "Contact list \<Rightarrow> ContactMap \<Rightarrow> error + ContactMap" where
  "mergeAllAliases [] m = Inr m"
| "mergeAllAliases (contact # contacts) m =
     (case mergeAliasesOf contact m of
        Inl e \<Rightarrow> Inl e
      | Inr m' \<Rightarrow> mergeAllAliases contacts m')"

text \<open>
  The last loop: every group of more than one contact is merged in place.
\<close>

fun mergeGroups :: "ContactMap \<Rightarrow> error + ContactMap" where
  "mergeGroups [] = Inr []"
| "mergeGroups ((primaryEmail, contacts) # m) =
     (case (if length contacts > 1 then mergeContactProperties primaryEmail contacts
            else Inr contacts) of
        Inl e \<Rightarrow> Inl e
      | Inr contacts' \<Rightarrow>
          (case mergeGroups m of
             Inl e \<Rightarrow> Inl e
           | Inr m' \<Rightarrow> Inr ((primaryEmail, contacts') # m')))"

text \<open>
  \<^verbatim>\<open>[...map.values()].map(([{ updated, ...cs }]) => cs)\<close>: the first contact of each
  group, without its \<^verbatim>\<open>updated\<close> field. Destructuring the first element of an empty
  array throws a TypeError.
\<close>

fun firstOfGroups :: "ContactMap \<Rightarrow> error + GeneratedContact list" where
  "firstOfGroups [] = Inr []"
| "firstOfGroups ((primaryEmail, []) # m) = Inl TypeError"
| "firstOfGroups ((primaryEmail, c # _) # m) =
     (case firstOfGroups m of
        Inl e \<Rightarrow> Inl e
      | Inr cs \<Rightarrow> Inr (GeneratedContact.truncate c # cs))"

definition mergeDuplicateContacts ::
  "TmpContact list \<Rightarrow> Contact list \<Rightarrow> error + GeneratedContact list" where
  "mergeDuplicateContacts allContacts initialContacts =
     (case mergeAllAliases initialContacts (fold addContact allContacts []) of
        Inl e \<Rightarrow> Inl e
      | Inr m \<Rightarrow>
          (case mergeGroups m of
             Inl e \<Rightarrow> Inl e
           | Inr m' \<Rightarrow> firstOfGroups m'))"

text \<open>\<^verbatim>\<open>v === null || v.length > 0\<close>, for a value that is a string or \<^verbatim>\<open>null\<close>.\<close>

definition nullOrNonEmpty :: "string option \<Rightarrow> bool" where
  "nullOrNonEmpty v = (case v of None \<Rightarrow> True | Some s \<Rightarrow> s \<noteq> [])"

text \<open>The condition of the final assertion of \<^verbatim>\<open>generateContacts\<close>, for one contact.\<close>

definition validContact :: "GeneratedContact \<Rightarrow> bool" where
  "validContact c =
     (contact_type c \<noteq> [] \<and> country c \<noteq> [] \<and> region c \<noteq> [] \<and> hosting c \<noteq> []
      \<and> email c \<noteq> []
      \<and> nullOrNonEmpty (firstname c) \<and> nullOrNonEmpty (lastname c)
      \<and> nullOrNonEmpty (phone c) \<and> nullOrNonEmpty (city c) \<and> nullOrNonEmpty (state c)
      \<and> deployment c = None \<and> last_mpac_event c = None \<and> license_tier c = None
      \<and> related_products c = None)"

definition generateContacts ::
  "TextHelpers \<Rightarrow> MarketplaceLicense list \<Rightarrow> MarketplaceTransaction list \<Rightarrow> Contact list \<Rightarrow>
     string set \<Rightarrow> error + GeneratedContact list" where
  "generateContacts h licenses transactions initialContacts partnerDomains =
     (case mergeDuplicateContacts
             (normalizeContacts h licenses transactions partnerDomains) initialContacts of
        Inl e \<Rightarrow> Inl e
      | Inr finalContacts \<Rightarrow>
          if list_all validContact finalContacts then Inr finalContacts
          else Inl AssertionError)"

text \<open>The group stored under a key, empty when the map has none.\<close>

definition groupOf :: "ContactMap \<Rightarrow> string \<Rightarrow> TmpContact list" where
  "groupOf m k = (case map_of m k of None \<Rightarrow> [] | Some contacts \<Rightarrow> contacts)"

text \<open>The elements of a list in the order of their first occurrences.\<close>

primrec firstOccurrences :: "'a list \<Rightarrow> 'a list" where
  "firstOccurrences [] = []"
| "firstOccurrences (x # xs) = x # filter (\<lambda>y. y \<noteq> x) (firstOccurrences xs)"

section \<open>Example states\<close>

definition exampleData :: "DealStage \<Rightarrow> DealData" where
  "exampleData stage =
     \<lparr> dealStage = stage, addonLicenseId = ''L-1'', transactionId = None, otherProperties = [] \<rparr>"

definition exampleDeal :: "DealStage \<Rightarrow> bool \<Rightarrow> Deal" where
  "exampleDeal stage activity =
     \<lparr> dealId = Some ''d'', data = exampleData stage, synced = exampleData stage,
       hasActivity = activity \<rparr>"

text \<open>
  Deals 1 and 2 are won and have activity, deal 4 is lost, every other deal is an
  evaluation without activity.
\<close>

definition exampleHeap :: "DealRef \<Rightarrow> Deal" where
  "exampleHeap =
     (\<lambda>_. exampleDeal EVAL False)
       (1 := exampleDeal CLOSED_WON True, 2 := exampleDeal CLOSED_WON True,
        4 := exampleDeal CLOSED_LOST True)"


definition exampleGenerator :: "(DealRef \<Rightarrow> Deal) \<Rightarrow> ActionGenerator" where
  "exampleGenerator h =
     \<lparr> heap = h, dealManager = \<lparr> live = {1, 2, 3, 4}, duplicatesToDelete = Map.empty \<rparr>,
       handledDeals = Map.empty, logged = [] \<rparr>"

text \<open>Collaborators that find the live deals among \<open>found\<close> and change no property.\<close>

definition exampleCollaborators :: "DealRef list \<Rightarrow> Collaborators" where
  "exampleCollaborators found =
     \<lparr> getDealsForRecords = (\<lambda>m records. Dlist (filter (\<lambda>d. d \<in> live m) found)),
       updateProperties = (\<lambda>r d. d),
       creationProperties = (\<lambda>r. []) \<rparr>"

definition exampleLicense :: "bool \<Rightarrow> string \<Rightarrow> License" where
  "exampleLicense a date =
     \<lparr> active = a, licenseAddonLicenseId = ''L-1'', maintenanceStartDate = date \<rparr>"

definition exampleTransaction :: Transaction where
  "exampleTransaction = \<lparr> txAddonLicenseId = ''L-1'', txTransactionId = ''T-1'' \<rparr>"

definition exampleHelpers :: TextHelpers where
  "exampleHelpers =
     \<lparr> capitalizeWords = (\<lambda>s. s),
       nonBlankString = (\<lambda>v. case v of None \<Rightarrow> None
                                | Some s \<Rightarrow> if s = [] then None else Some s) \<rparr>"

definition exampleInfo :: "string \<Rightarrow> string option \<Rightarrow> ContactInfo" where
  "exampleInfo address name =
     \<lparr> infoEmail = address, infoName = name, infoPhone = None, infoCity = None,
       infoState = None \<rparr>"

definition exampleMarketplaceLicense :: MarketplaceLicense where
  "exampleMarketplaceLicense =
     \<lparr> contactDetails =
         \<lparr> technicalContact = exampleInfo ''a@x.com'' (Some ''Jo Smith''),
           billingContact = None, detailsCountry = ''Norway'', detailsRegion = ''EMEA'' \<rparr>,
       licensePartnerBillingContact = None, licenseHosting = ''Cloud'',
       lastUpdated = ''2020-01-01'' \<rparr>"

definition exampleContact ::
  "string \<Rightarrow> string option \<Rightarrow> string option \<Rightarrow> string \<Rightarrow> string \<Rightarrow> TmpContact" where
  "exampleContact address givenName familyName type time =
     \<lparr> email = address, firstname = givenName, lastname = familyName, phone = None, city = None,
       state = None, company_id = None, contact_type = type, country = ''Norway'',
       region = ''EMEA'', hosting = ''Cloud'', deployment = None, last_mpac_event = None,
       license_tier = None, related_products = None, updated = time \<rparr>"

definition exampleAlias :: Contact where
  "exampleAlias = \<lparr> contactEmail = ''a@x.com'', otherEmails = [''b@x.com''] \<rparr>"

definition exampleMap :: ContactMap where
  "exampleMap =
     [(''a@x.com'', [exampleContact ''a@x.com'' (Some ''Jo'') None ''Customer'' ''2020-01-01'']),
      (''b@x.com'', [exampleContact ''b@x.com'' None (Some ''Smith'') ''Customer'' ''2020-06-01''])]"

section \<open>Properties of duplicate resolution\<close>

lemma dom_fold_addDuplicate:
  "dom (fold (addDuplicate k) ds m) = dom m \<union> set ds"
  by (induction ds arbitrary: m) (auto simp: addDuplicate_def)

lemma fold_addDuplicate_other:
  "d \<notin> set ds \<Longrightarrow> fold (addDuplicate k) ds m d = m d"
  by (induction ds arbitrary: m) (auto simp: addDuplicate_def)

lemma fold_addDuplicate_member:
  "d \<in> set ds \<Longrightarrow> \<exists>S. fold (addDuplicate k) ds m d = Some S \<and> k \<in> S"
proof (induction ds arbitrary: m)
  case Nil
  then show ?case by simp
next
  case (Cons a ds)
  show ?case
  proof (cases "d \<in> set ds")
    case True
    then show ?thesis using Cons.IH by simp
  next
    case False
    with Cons.prems have "a = d" by simp
    have "fold (addDuplicate k) ds (addDuplicate k a m) d = addDuplicate k a m d"
      using False by (rule fold_addDuplicate_other)
    moreover have "\<exists>S. addDuplicate k d m d = Some S \<and> k \<in> S"
      by (simp add: addDuplicate_def)
    ultimately show ?thesis using \<open>a = d\<close> by simp
  qed
qed

lemma singleDeal_cases:
  "singleDeal foundDeals s =
     (case list_of_dlist foundDeals of
        [] \<Rightarrow> (None, s)
      | [deal] \<Rightarrow> (Some deal, s)
      | first # rest \<Rightarrow>
          (Some (fst (resolveDuplicates (heap s) first rest)),
           s\<lparr>dealManager :=
                recordDuplicates (fst (resolveDuplicates (heap s) first rest))
                  (toDeleteOf foundDeals s)
                  (removeLocally (toDeleteOf foundDeals s) (dealManager s)),
              logged := logged s @ snd (snd (resolveDuplicates (heap s) first rest))\<rparr>))"
  by (auto simp: singleDeal_def toDeleteOf_def split: list.splits prod.splits)

lemma resolveDuplicates_kept_not_deleted:
  "first \<notin> set rest \<Longrightarrow>
   fst (resolveDuplicates h first rest) \<notin> set (fst (snd (resolveDuplicates h first rest)))"
  by (auto simp: resolveDuplicates_def Let_def split: list.splits if_splits)

lemma resolveDuplicates_kept:
  "fst (resolveDuplicates h first rest) =
     (case filter (\<lambda>d. hasActivity (h d)) (first # rest) of
        [] \<Rightarrow> first | important # _ \<Rightarrow> important)"
  by (simp add: resolveDuplicates_def Let_def split: list.splits)

lemma filter_not_in_filter:
  "filter (\<lambda>d. d \<notin> set (filter P xs)) xs = filter (\<lambda>d. \<not> P d) xs"
  by (rule filter_cong) auto

lemma resolveDuplicates_toDelete:
  "fst (snd (resolveDuplicates h first rest)) =
     (if filter (\<lambda>d. hasActivity (h d)) (first # rest) = [] then rest
      else filter (\<lambda>d. \<not> hasActivity (h d)) (first # rest))"
proof (cases "filter (\<lambda>d. hasActivity (h d)) (first # rest)")
  case Nil
  then show ?thesis
    by (simp add: resolveDuplicates_def Let_def del: filter.simps)
next
  case (Cons important others)
  then have "fst (snd (resolveDuplicates h first rest)) =
      filter (\<lambda>deal. deal \<notin> set (filter (\<lambda>d. hasActivity (h d)) (first # rest))) (first # rest)"
    by (simp add: resolveDuplicates_def Let_def del: filter.simps)
  also have "\<dots> = filter (\<lambda>d. \<not> hasActivity (h d)) (first # rest)"
    by (rule filter_not_in_filter)
  finally show ?thesis using Cons by (simp del: filter.simps)
qed

lemma resolveDuplicates_warnings:
  "snd (snd (resolveDuplicates h first rest)) =
     (if length (filter (\<lambda>d. hasActivity (h d)) (first # rest)) > 1
      then [WarnDuplicates (filter (\<lambda>d. hasActivity (h d)) (first # rest))] else [])"
  by (auto simp: resolveDuplicates_def Let_def split: list.splits)

text \<open>
  C8. When the set of found deals holds exactly one deal, \<^verbatim>\<open>singleDeal\<close> returns that deal
  and leaves the whole state as it was: nothing is removed from the live deals of the deal
  manager and nothing is recorded in \<^verbatim>\<open>duplicatesToDelete\<close>.
\<close>

theorem singleDeal_one:
  "length (list_of_dlist foundDeals) = 1 \<Longrightarrow>
     \<exists>deal. list_of_dlist foundDeals = [deal] \<and> singleDeal foundDeals s = (Some deal, s)"
  by (cases "list_of_dlist foundDeals") (auto simp: singleDeal_def)

theorem singleDeal_one_witness:
  "length (list_of_dlist (Dlist [2::nat])) = 1 \<and>
   (\<exists>deal. list_of_dlist (Dlist [2]) = [deal] \<and>
      singleDeal (Dlist [2]) (exampleGenerator (\<lambda>_. exampleDeal EVAL False)) =
        (Some deal, exampleGenerator (\<lambda>_. exampleDeal EVAL False)))"
  using singleDeal_one [of "Dlist [2]" "exampleGenerator (\<lambda>_. exampleDeal EVAL False)"]
  by simp

text \<open>
  C10. The deal \<^verbatim>\<open>singleDeal\<close> returns is never in the list it passes to
  \<^verbatim>\<open>removeLocally\<close> and records in \<^verbatim>\<open>duplicatesToDelete\<close>: the list leaves the live set,
  its members become keys of \<^verbatim>\<open>duplicatesToDelete\<close>, the entry of the kept deal stays as it
  was, and a kept deal that was live stays live. When no found deal has activity the first
  found deal is kept, otherwise the first found deal with activity.
\<close>

theorem singleDeal_kept_not_deleted:
  assumes "singleDeal foundDeals s = (Some kept, s')"
  shows "kept \<notin> set (toDeleteOf foundDeals s)
    \<and> live (dealManager s') = live (dealManager s) - set (toDeleteOf foundDeals s)
    \<and> dom (duplicatesToDelete (dealManager s')) =
        dom (duplicatesToDelete (dealManager s)) \<union> set (toDeleteOf foundDeals s)
    \<and> duplicatesToDelete (dealManager s') kept = duplicatesToDelete (dealManager s) kept
    \<and> (kept \<in> live (dealManager s) \<longrightarrow> kept \<in> live (dealManager s'))
    \<and> (filter (\<lambda>d. hasActivity (heap s d)) (list_of_dlist foundDeals) = [] \<longrightarrow>
          (\<exists>rest. list_of_dlist foundDeals = kept # rest))
    \<and> (\<forall>important others.
          filter (\<lambda>d. hasActivity (heap s d)) (list_of_dlist foundDeals) = important # others \<longrightarrow>
          kept = important)"
proof (cases "list_of_dlist foundDeals")
  case Nil
  with assms show ?thesis by (simp add: singleDeal_def)
next
  case (Cons first rest)
  show ?thesis
  proof (cases rest)
    case Nil
    with Cons assms show ?thesis
      by (auto simp: singleDeal_def toDeleteOf_def)
  next
    case (Cons second more)
    have found: "list_of_dlist foundDeals = first # second # more"
      using \<open>list_of_dlist foundDeals = first # rest\<close> Cons by simp
    have "distinct (list_of_dlist foundDeals)" by simp
    then have fresh: "first \<notin> set rest" using \<open>list_of_dlist foundDeals = first # rest\<close> by simp
    have del: "toDeleteOf foundDeals s = fst (snd (resolveDuplicates (heap s) first rest))"
      using found Cons by (simp add: toDeleteOf_def)
    have kept: "kept = fst (resolveDuplicates (heap s) first rest)"
      using assms [symmetric] found Cons by (simp add: singleDeal_cases)
    have s': "s' = s\<lparr>dealManager :=
                recordDuplicates kept (toDeleteOf foundDeals s)
                  (removeLocally (toDeleteOf foundDeals s) (dealManager s)),
              logged := logged s @ snd (snd (resolveDuplicates (heap s) first rest))\<rparr>"
      using assms [symmetric] found Cons by (simp add: singleDeal_cases)
    have notin: "kept \<notin> set (toDeleteOf foundDeals s)"
      unfolding del kept using fresh by (rule resolveDuplicates_kept_not_deleted)
    have live: "live (dealManager s') = live (dealManager s) - set (toDeleteOf foundDeals s)"
      by (simp add: s' recordDuplicates_def removeLocally_def)
    have dups: "duplicatesToDelete (dealManager s') =
        fold (addDuplicate kept) (toDeleteOf foundDeals s) (duplicatesToDelete (dealManager s))"
      by (simp add: s' recordDuplicates_def removeLocally_def)
    have "kept = (case filter (\<lambda>d. hasActivity (heap s d)) (list_of_dlist foundDeals) of
                    [] \<Rightarrow> first | important # _ \<Rightarrow> important)"
      unfolding kept \<open>list_of_dlist foundDeals = first # rest\<close> by (rule resolveDuplicates_kept)
    then have which: "(filter (\<lambda>d. hasActivity (heap s d)) (list_of_dlist foundDeals) = [] \<longrightarrow>
          (\<exists>rest. list_of_dlist foundDeals = kept # rest))
      \<and> (\<forall>important others.
          filter (\<lambda>d. hasActivity (heap s d)) (list_of_dlist foundDeals) = important # others \<longrightarrow>
          kept = important)"
      using \<open>list_of_dlist foundDeals = first # rest\<close> by (auto split: list.splits)
    show ?thesis
      using notin live which
      by (simp add: dups dom_fold_addDuplicate fold_addDuplicate_other)
  qed
qed

theorem singleDeal_kept_not_deleted_witness:
  "singleDeal (Dlist [3, 2, 1]) (exampleGenerator exampleHeap) =
     (Some 2, snd (singleDeal (Dlist [3, 2, 1]) (exampleGenerator exampleHeap)))
   \<and> 2 \<notin> set (toDeleteOf (Dlist [3, 2, 1]) (exampleGenerator exampleHeap))
   \<and> toDeleteOf (Dlist [3, 2, 1]) (exampleGenerator exampleHeap) = [3]
   \<and> live (dealManager (snd (singleDeal (Dlist [3, 2, 1]) (exampleGenerator exampleHeap)))) =
       {1, 2, 3, 4} - {3}"
proof -
  have run: "singleDeal (Dlist [3, 2, 1]) (exampleGenerator exampleHeap) =
     (Some 2, snd (singleDeal (Dlist [3, 2, 1]) (exampleGenerator exampleHeap)))"
    by (simp add: singleDeal_def resolveDuplicates_def exampleGenerator_def exampleHeap_def
        exampleDeal_def)
  have del: "toDeleteOf (Dlist [3, 2, 1]) (exampleGenerator exampleHeap) = [3]"
    by (simp add: toDeleteOf_def resolveDuplicates_def exampleGenerator_def exampleHeap_def
        exampleDeal_def)
  have "live (dealManager (exampleGenerator exampleHeap)) = {1, 2, 3, 4}"
    by (simp add: exampleGenerator_def)
  then show ?thesis
    using singleDeal_kept_not_deleted [OF run] run del
    by simp
qed

text \<open>
  C1, as the code has it. When more than one found deal has activity, the first of them is
  kept and all the found deals with activity are reported in one warning; the deals marked
  for deletion (passed to \<^verbatim>\<open>removeLocally\<close>, recorded in \<^verbatim>\<open>duplicatesToDelete\<close> as
  duplicates of the kept deal) are exactly the found deals without activity. The other deals
  with activity are not marked: they stay live when they were, and their entries of
  \<^verbatim>\<open>duplicatesToDelete\<close> are untouched ("keep/report the other importants; delete the
  rest").
\<close>

theorem singleDeal_several_active:
  assumes "1 < length (filter (\<lambda>d. hasActivity (heap s d)) (list_of_dlist foundDeals))"
  shows "\<exists>kept others.
       filter (\<lambda>d. hasActivity (heap s d)) (list_of_dlist foundDeals) = kept # others
     \<and> fst (singleDeal foundDeals s) = Some kept
     \<and> logged (snd (singleDeal foundDeals s)) = logged s @ [WarnDuplicates (kept # others)]
     \<and> toDeleteOf foundDeals s =
         filter (\<lambda>d. \<not> hasActivity (heap s d)) (list_of_dlist foundDeals)
     \<and> live (dealManager (snd (singleDeal foundDeals s))) =
         live (dealManager s) - {d \<in> set (list_of_dlist foundDeals). \<not> hasActivity (heap s d)}
     \<and> dom (duplicatesToDelete (dealManager (snd (singleDeal foundDeals s)))) =
         dom (duplicatesToDelete (dealManager s))
         \<union> {d \<in> set (list_of_dlist foundDeals). \<not> hasActivity (heap s d)}
     \<and> (\<forall>d \<in> set (list_of_dlist foundDeals). \<not> hasActivity (heap s d) \<longrightarrow>
          (\<exists>S. duplicatesToDelete (dealManager (snd (singleDeal foundDeals s))) d = Some S
               \<and> kept \<in> S))
     \<and> (\<forall>d \<in> set (list_of_dlist foundDeals). hasActivity (heap s d) \<longrightarrow>
          duplicatesToDelete (dealManager (snd (singleDeal foundDeals s))) d =
            duplicatesToDelete (dealManager s) d
          \<and> (d \<in> live (dealManager s) \<longrightarrow>
               d \<in> live (dealManager (snd (singleDeal foundDeals s)))))"
proof -
  let ?P = "\<lambda>d. hasActivity (heap s d)"
  let ?found = "list_of_dlist foundDeals"
  obtain kept others where imp: "filter ?P ?found = kept # others"
    using assms by (cases "filter ?P ?found") auto
  have "1 < length ?found"
    using assms length_filter_le [of ?P ?found] by linarith
  then obtain first second more where found: "?found = first # second # more"
    by (cases ?found; cases "tl ?found") auto
  have del: "toDeleteOf foundDeals s = filter (\<lambda>d. \<not> ?P d) ?found"
    using imp found resolveDuplicates_toDelete [of "heap s" first "second # more"]
    by (simp add: toDeleteOf_def del: filter.simps)
  have kept: "fst (resolveDuplicates (heap s) first (second # more)) = kept"
    using imp found resolveDuplicates_kept [of "heap s" first "second # more"]
    by (simp del: filter.simps)
  have warn: "snd (snd (resolveDuplicates (heap s) first (second # more))) =
      [WarnDuplicates (kept # others)]"
    using imp found assms resolveDuplicates_warnings [of "heap s" first "second # more"]
    by (simp del: filter.simps)
  have run: "singleDeal foundDeals s =
      (Some kept,
       s\<lparr>dealManager :=
            recordDuplicates kept (toDeleteOf foundDeals s)
              (removeLocally (toDeleteOf foundDeals s) (dealManager s)),
          logged := logged s @ [WarnDuplicates (kept # others)]\<rparr>)"
    using found kept warn by (simp add: singleDeal_cases del: filter.simps)
  have dups: "duplicatesToDelete (dealManager (snd (singleDeal foundDeals s))) =
      fold (addDuplicate kept) (filter (\<lambda>d. \<not> ?P d) ?found) (duplicatesToDelete (dealManager s))"
    by (simp add: run recordDuplicates_def removeLocally_def del)
  have live: "live (dealManager (snd (singleDeal foundDeals s))) =
      live (dealManager s) - {d \<in> set ?found. \<not> ?P d}"
    by (simp add: run recordDuplicates_def removeLocally_def del)
  have deleted: "\<forall>d \<in> set ?found. \<not> ?P d \<longrightarrow>
      (\<exists>S. duplicatesToDelete (dealManager (snd (singleDeal foundDeals s))) d = Some S \<and> kept \<in> S)"
    unfolding dups by (auto intro!: fold_addDuplicate_member)
  have spared: "\<forall>d \<in> set ?found. ?P d \<longrightarrow>
      duplicatesToDelete (dealManager (snd (singleDeal foundDeals s))) d =
        duplicatesToDelete (dealManager s) d
      \<and> (d \<in> live (dealManager s) \<longrightarrow> d \<in> live (dealManager (snd (singleDeal foundDeals s))))"
    unfolding dups live by (auto simp: fold_addDuplicate_other)
  have "fst (singleDeal foundDeals s) = Some kept"
    and "logged (snd (singleDeal foundDeals s)) = logged s @ [WarnDuplicates (kept # others)]"
    by (simp_all add: run)
  moreover have "dom (duplicatesToDelete (dealManager (snd (singleDeal foundDeals s)))) =
         dom (duplicatesToDelete (dealManager s)) \<union> {d \<in> set ?found. \<not> ?P d}"
    unfolding dups by (simp add: dom_fold_addDuplicate)
  ultimately show ?thesis
    using imp del live deleted spared by blast
qed

theorem singleDeal_several_active_witness:
  "1 < length (filter (\<lambda>d. hasActivity (heap (exampleGenerator exampleHeap) d))
                (list_of_dlist (Dlist [3, 1, 2])))
   \<and> (\<exists>kept others.
         filter (\<lambda>d. hasActivity (heap (exampleGenerator exampleHeap) d))
           (list_of_dlist (Dlist [3, 1, 2])) = kept # others
       \<and> fst (singleDeal (Dlist [3, 1, 2]) (exampleGenerator exampleHeap)) = Some kept
       \<and> toDeleteOf (Dlist [3, 1, 2]) (exampleGenerator exampleHeap) = [3]
       \<and> live (dealManager (snd (singleDeal (Dlist [3, 1, 2]) (exampleGenerator exampleHeap))))
           = {1, 2, 4})"
proof -
  have many: "1 < length (filter (\<lambda>d. hasActivity (heap (exampleGenerator exampleHeap) d))
                (list_of_dlist (Dlist [3, 1, 2])))"
    by (simp add: exampleGenerator_def exampleHeap_def exampleDeal_def)
  have "{1, 2, 3, 4} - {d. (d = 3 \<or> d = 1 \<or> d = 2)
           \<and> \<not> hasActivity (heap (exampleGenerator exampleHeap) d)} = {1, 2, 4::nat}"
    by (auto simp: exampleGenerator_def exampleHeap_def exampleDeal_def)
  then show ?thesis
    using singleDeal_several_active [OF many] many
    by (auto simp: exampleGenerator_def exampleHeap_def exampleDeal_def)
qed

text \<open>
  C1 as stated fails: deals 1 and 2 both have activity, deal 1 is kept, and deal 2, which
  is not kept, is not passed to \<^verbatim>\<open>removeLocally\<close>, stays live and gets no entry in
  \<^verbatim>\<open>duplicatesToDelete\<close>.
\<close>

theorem singleDeal_active_duplicate_spared:
  "hasActivity (exampleHeap 1) \<and> hasActivity (exampleHeap 2)
   \<and> fst (singleDeal (Dlist [1, 2, 3]) (exampleGenerator exampleHeap)) = Some 1
   \<and> toDeleteOf (Dlist [1, 2, 3]) (exampleGenerator exampleHeap) = [3]
   \<and> 2 \<in> live (dealManager (snd (singleDeal (Dlist [1, 2, 3]) (exampleGenerator exampleHeap))))
   \<and> duplicatesToDelete
        (dealManager (snd (singleDeal (Dlist [1, 2, 3]) (exampleGenerator exampleHeap)))) 2 = None"
  by (simp add: singleDeal_def toDeleteOf_def resolveDuplicates_def exampleGenerator_def
      exampleHeap_def exampleDeal_def recordDuplicates_def removeLocally_def addDuplicate_def)

section \<open>Properties of the actions\<close>

lemma singleDeal_empty: "list_of_dlist foundDeals = [] \<Longrightarrow> singleDeal foundDeals s = (None, s)"
  by (simp add: singleDeal_def)

lemma singleDeal_heap: "heap (snd (singleDeal foundDeals s)) = heap s"
  by (simp add: singleDeal_cases split: list.splits)

lemma singleDeal_found:
  "list_of_dlist foundDeals \<noteq> [] \<Longrightarrow> \<exists>deal. fst (singleDeal foundDeals s) = Some deal"
  by (simp add: singleDeal_cases split: list.splits)

lemma singleDeal_member:
  "fst (singleDeal foundDeals s) = Some deal \<Longrightarrow> deal \<in> set (list_of_dlist foundDeals)"
  by (auto simp: singleDeal_cases resolveDuplicates_kept split: list.splits if_splits
      dest: filter_eq_ConsD)

lemma recordSeen_heap: "heap (recordSeen deal event s) = heap s"
  by (simp add: recordSeen_def)

text \<open>
  C4. An eval event whose lookup finds no deal yields exactly one action, a Create, and
  changes no state. Its stage is EVAL when some license of the event is active and
  CLOSED_LOST otherwise, its addon license id is that of the last license of the event (the
  most recent one, the licenses being in chronological order), and its transaction id is
  null. The event has a license: with none the code reads \<^verbatim>\<open>data\<close> of \<^verbatim>\<open>undefined\<close>.
\<close>

theorem actionForEval_no_match:
  assumes "licenses \<noteq> []"
    and "list_of_dlist (getDealsForRecords c (dealManager s) (map LicenseRecord licenses)) = []"
  shows "\<exists>properties.
       actionsFor c (EvalEvent g licenses) s = Inr ([CreateDealAction g properties], s)
     \<and> dealStage properties = (if \<exists>l \<in> set licenses. active l then EVAL else CLOSED_LOST)
     \<and> addonLicenseId properties = licenseAddonLicenseId (last licenses)
     \<and> transactionId properties = None"
  using assms
  by (simp add: actionForEval_def singleDeal_empty makeCreateAction_def
      dealCreationProperties_def evalStage_def list_ex_iff)

theorem actionForEval_no_match_witness:
  "[exampleLicense True ''2021-01-01'', exampleLicense False ''2021-02-01''] \<noteq> []
   \<and> list_of_dlist (getDealsForRecords (exampleCollaborators [])
         (dealManager (exampleGenerator exampleHeap))
         (map LicenseRecord
            [exampleLicense True ''2021-01-01'', exampleLicense False ''2021-02-01''])) = []
   \<and> (\<exists>properties.
         actionsFor (exampleCollaborators [])
           (EvalEvent [] [exampleLicense True ''2021-01-01'', exampleLicense False ''2021-02-01''])
           (exampleGenerator exampleHeap)
         = Inr ([CreateDealAction [] properties], exampleGenerator exampleHeap)
       \<and> dealStage properties = EVAL
       \<and> addonLicenseId properties = ''L-1''
       \<and> transactionId properties = None)"
  using actionForEval_no_match
    [of "[exampleLicense True ''2021-01-01'', exampleLicense False ''2021-02-01'']"
      "exampleCollaborators []" "exampleGenerator exampleHeap" "[]"]
  by (simp add: exampleCollaborators_def exampleLicense_def)

lemma makeUpdateAction_result:
  "makeUpdateAction c event deal record dealstage s = (a, s') \<Longrightarrow>
     s' = s\<lparr>heap := (heap s)(deal := heap s' deal)\<rparr>
   \<and> a = (if hasPropertyChanges (heap s' deal)
          then UpdateDealAction (groupsOf event) deal (getPropertyChanges (heap s' deal))
          else NoDealAction (groupsOf event) deal)
   \<and> dealStage (data (heap s' deal)) =
       (case dealstage of None \<Rightarrow> dealStage (data (heap s deal)) | Some stage \<Rightarrow> stage)
   \<and> synced (heap s' deal) = synced (heap s deal)
   \<and> hasActivity (heap s' deal) = hasActivity (heap s deal)"
  by (auto simp: makeUpdateAction_def Let_def updateDeal_def split: option.splits if_splits)

text \<open>
  C3, as the code has it. A purchase event whose lookup finds a deal yields exactly one
  action, the one \<^verbatim>\<open>makeUpdateAction\<close> builds for the deal \<^verbatim>\<open>singleDeal\<close> chose: an
  Update with the deal's property changes, or a Noop when the deal ends with none. The
  deal's stage becomes CLOSED_WON when it was EVAL and is unchanged otherwise; no other
  deal is touched.
\<close>

theorem actionForPurchase_match:
  assumes "list_of_dlist (getDealsForRecords c (dealManager s)
             ((case transaction of None \<Rightarrow> [] | Some t \<Rightarrow> [TransactionRecord t])
              @ map LicenseRecord licenses)) \<noteq> []"
  shows "\<exists>deal a s'.
       fst (singleDeal (getDealsForRecords c (dealManager s)
             ((case transaction of None \<Rightarrow> [] | Some t \<Rightarrow> [TransactionRecord t])
              @ map LicenseRecord licenses)) s) = Some deal
     \<and> actionsFor c (PurchaseEvent g licenses transaction) s = Inr ([a], s')
     \<and> a = (if hasPropertyChanges (heap s' deal)
            then UpdateDealAction g deal (getPropertyChanges (heap s' deal))
            else NoDealAction g deal)
     \<and> dealStage (data (heap s' deal)) =
         (if dealStage (data (heap s deal)) = EVAL then CLOSED_WON
          else dealStage (data (heap s deal)))
     \<and> (\<forall>other. other \<noteq> deal \<longrightarrow> heap s' other = heap s other)"
proof -
  let ?found = "getDealsForRecords c (dealManager s)
             ((case transaction of None \<Rightarrow> [] | Some t \<Rightarrow> [TransactionRecord t])
              @ map LicenseRecord licenses)"
  let ?event = "PurchaseEvent g licenses transaction"
  obtain deal where deal: "fst (singleDeal ?found s) = Some deal"
    using singleDeal_found [OF assms] by blast
  define s1 where "s1 = snd (singleDeal ?found s)"
  define s2 where "s2 = recordSeen deal ?event s1"
  have sd: "singleDeal ?found s = (Some deal, s1)"
    using deal by (simp add: s1_def prod_eq_iff)
  have h2: "heap s2 = heap s"
    by (simp add: s2_def s1_def recordSeen_heap singleDeal_heap)
  define license where "license = (case transaction of
                               Some t \<Rightarrow> Some (TransactionRecord t)
                             | None \<Rightarrow> map_option LicenseRecord (getLatestLicense licenses))"
  define stage where "stage = (if isEval (heap s2 deal) then CLOSED_WON
                           else dealStage (data (heap s2 deal)))"
  obtain a s' where mk: "makeUpdateAction c ?event deal license (Some stage) s2 = (a, s')"
    by (cases "makeUpdateAction c ?event deal license (Some stage) s2") blast
  have run: "actionForPurchase c g licenses transaction s = Inr (a, s')"
    using sd mk
    by (auto simp: actionForPurchase_def Let_def s2_def license_def stage_def split: if_splits)
  note r = makeUpdateAction_result [OF mk]
  have "s' = s2\<lparr>heap := (heap s2)(deal := heap s' deal)\<rparr>" using r by blast
  then have "heap s' = (heap s2)(deal := heap s' deal)"
    by (metis ActionGenerator.select_convs(1) ActionGenerator.surjective ActionGenerator.update_convs(1))
  then have others: "\<forall>other. other \<noteq> deal \<longrightarrow> heap s' other = heap s other"
    using h2 by (metis fun_upd_other)
  have st: "dealStage (data (heap s' deal)) =
         (if dealStage (data (heap s deal)) = EVAL then CLOSED_WON
          else dealStage (data (heap s deal)))"
    using r h2 by (simp add: stage_def isEval_def)
  have act: "a = (if hasPropertyChanges (heap s' deal)
            then UpdateDealAction g deal (getPropertyChanges (heap s' deal))
            else NoDealAction g deal)"
    using r by simp
  have "actionsFor c ?event s = Inr ([a], s')" using run by simp
  then show ?thesis using deal act st others by blast
qed

theorem actionForPurchase_match_witness:
  "list_of_dlist (getDealsForRecords (exampleCollaborators [3]) (dealManager (exampleGenerator exampleHeap))
      ((case Some exampleTransaction of None \<Rightarrow> [] | Some t \<Rightarrow> [TransactionRecord t])
       @ map LicenseRecord [])) \<noteq> []
   \<and> resultAction (actionForPurchase (exampleCollaborators [3]) [] [] (Some exampleTransaction)
         (exampleGenerator exampleHeap))
       = Some (UpdateDealAction [] 3 (noChanges\<lparr>changedDealStage := Some CLOSED_WON\<rparr>))
   \<and> map_option (\<lambda>d. dealStage (data d))
        (resultDeal (actionForPurchase (exampleCollaborators [3]) [] [] (Some exampleTransaction)
           (exampleGenerator exampleHeap)) 3) = Some CLOSED_WON"
proof -
  have found: "list_of_dlist (getDealsForRecords (exampleCollaborators [3])
      (dealManager (exampleGenerator exampleHeap))
      ((case Some exampleTransaction of None \<Rightarrow> [] | Some t \<Rightarrow> [TransactionRecord t])
       @ map LicenseRecord [])) \<noteq> []"
    by (simp add: exampleCollaborators_def exampleGenerator_def)
  have chosen: "fst (singleDeal (getDealsForRecords (exampleCollaborators [3])
      (dealManager (exampleGenerator exampleHeap))
      ((case Some exampleTransaction of None \<Rightarrow> [] | Some t \<Rightarrow> [TransactionRecord t])
       @ map LicenseRecord [])) (exampleGenerator exampleHeap)) = Some 3"
    by (simp add: exampleCollaborators_def exampleGenerator_def singleDeal_def)
  have before: "heap (exampleGenerator exampleHeap) 3 = exampleDeal EVAL False"
    by (simp add: exampleGenerator_def exampleHeap_def)
  from actionForPurchase_match [OF found, of "[]"] chosen obtain a s' where
    run: "actionForPurchase (exampleCollaborators [3]) [] [] (Some exampleTransaction)
            (exampleGenerator exampleHeap) = Inr (a, s')"
    and act: "a = (if hasPropertyChanges (heap s' 3)
                   then UpdateDealAction [] 3 (getPropertyChanges (heap s' 3))
                   else NoDealAction [] 3)"
    and stage: "dealStage (data (heap s' 3)) = CLOSED_WON"
    by (auto simp: before exampleDeal_def exampleData_def split: sum.splits)
  have "heap s' 3 = (exampleDeal EVAL False)\<lparr>data := exampleData CLOSED_WON\<rparr>"
    using run
    by (auto simp: actionForPurchase_def singleDeal_def exampleCollaborators_def
        exampleGenerator_def exampleHeap_def exampleDeal_def exampleData_def recordSeen_def
        makeUpdateAction_def updateDeal_def isEval_def Let_def split: if_splits)
  then have "a = UpdateDealAction [] 3 (noChanges\<lparr>changedDealStage := Some CLOSED_WON\<rparr>)"
    using act
    by (simp add: hasPropertyChanges_def getPropertyChanges_def noChanges_def exampleDeal_def
        exampleData_def)
  then show ?thesis
    using found run stage by (simp add: resultAction_def resultDeal_def)
qed

text \<open>
  C3 as stated fails: the deal found for a purchase is already in CLOSED_WON, so it was
  not in EVAL before the event, and its resulting stage is CLOSED_WON all the same; as
  the record brings no change, the action is a Noop, not an Update.
\<close>

theorem actionForPurchase_already_won:
  "dealStage (data (heap (exampleGenerator exampleHeap) 1)) = CLOSED_WON
   \<and> list_of_dlist (getDealsForRecords (exampleCollaborators [1])
         (dealManager (exampleGenerator exampleHeap))
         [TransactionRecord exampleTransaction]) = [1]
   \<and> resultAction (actionForPurchase (exampleCollaborators [1]) [] [] (Some exampleTransaction)
         (exampleGenerator exampleHeap)) = Some (NoDealAction [] 1)
   \<and> map_option (\<lambda>d. dealStage (data d))
        (resultDeal (actionForPurchase (exampleCollaborators [1]) [] [] (Some exampleTransaction)
           (exampleGenerator exampleHeap)) 1) = Some CLOSED_WON"
  by (simp add: actionForPurchase_def singleDeal_def exampleCollaborators_def exampleGenerator_def
      exampleHeap_def exampleDeal_def exampleData_def recordSeen_def makeUpdateAction_def
      updateDeal_def isEval_def hasPropertyChanges_def getPropertyChanges_def noChanges_def
      resultAction_def resultDeal_def Let_def)

subsection \<open>Refunds\<close>


text \<open>
  A deal whose last-synced stage is not CLOSED_LOST has a change then, that of its stage;
  a deal that with the stage CLOSED_LOST is what was last synced has none.
\<close>

lemma closeLost_changes:
  "dealStage (synced d) \<noteq> CLOSED_LOST \<Longrightarrow>
     hasPropertyChanges (closeLost d)
     \<and> changedDealStage (getPropertyChanges (closeLost d)) = Some CLOSED_LOST"
  by (auto simp: closeLost_def hasPropertyChanges_def getPropertyChanges_def noChanges_def)

lemma closeLost_unchanged:
  "data (closeLost d) = synced d \<Longrightarrow> \<not> hasPropertyChanges (closeLost d)"
proof -
  assume "data (closeLost d) = synced d"
  then have "synced d = (data d)\<lparr>dealStage := CLOSED_LOST\<rparr>"
    by (simp add: closeLost_def)
  then show ?thesis
    by (simp add: closeLost_def hasPropertyChanges_def getPropertyChanges_def noChanges_def)
qed


lemma fold_recordSeen_heap: "heap (fold (\<lambda>deal. recordSeen deal event) deals s) = heap s"
  by (induction deals arbitrary: s) (simp_all add: recordSeen_heap)





subsection \<open>No action moves a deal out of CLOSED_LOST\<close>

lemma unchanged_deal_lostStaysLost: "data d = synced d \<Longrightarrow> lostStaysLost d"
  by (simp add: lostStaysLost_def)

lemma makeUpdateAction_consistent:
  assumes "stagesConsistent s"
    and "\<forall>stage. dealstage = Some stage \<longrightarrow> dealStage (synced (heap s deal)) = CLOSED_LOST \<longrightarrow>
           stage = CLOSED_LOST"
  shows "stagesConsistent (snd (makeUpdateAction c event deal record dealstage s))"
  using assms
  by (auto simp: stagesConsistent_def lostStaysLost_def makeUpdateAction_def Let_def updateDeal_def
      split: option.splits)

lemma singleDeal_consistent: "stagesConsistent (snd (singleDeal foundDeals s)) = stagesConsistent s"
  by (simp add: stagesConsistent_def singleDeal_heap)

lemma recordSeen_consistent: "stagesConsistent (recordSeen deal event s) = stagesConsistent s"
  by (simp add: stagesConsistent_def recordSeen_heap)

lemma actionForEval_consistent:
  assumes "stagesConsistent s" and "actionForEval c g licenses s = Inr (a, s')"
  shows "stagesConsistent s'"
proof (cases "singleDeal (getDealsForRecords c (dealManager s) (map LicenseRecord licenses)) s")
  case (Pair found s1)
  have c1: "stagesConsistent s1"
    using assms(1) singleDeal_consistent [of "getDealsForRecords c (dealManager s) (map LicenseRecord licenses)" s]
    by (simp add: Pair)
  show ?thesis
  proof (cases found)
    case None
    with assms(2) Pair c1 show ?thesis
      by (auto simp: actionForEval_def Let_def split: option.splits if_splits)
  next
    case (Some deal)
    let ?s2 = "recordSeen deal (EvalEvent g licenses) s1"
    have c2: "stagesConsistent ?s2" using c1 by (simp add: recordSeen_consistent)
    show ?thesis
    proof (cases "isEval (heap ?s2 deal)")
      case True
      then have "dealStage (synced (heap ?s2 deal)) \<noteq> CLOSED_LOST"
        using c2 by (auto simp: stagesConsistent_def lostStaysLost_def isEval_def)
      then have "stagesConsistent (snd (makeUpdateAction c (EvalEvent g licenses) deal
          (map_option LicenseRecord (if licenses = [] then None else Some (last licenses)))
          (Some (evalStage licenses)) ?s2))"
        using c2 by (intro makeUpdateAction_consistent) auto
      with assms(2) Pair Some True show ?thesis
        by (auto simp: actionForEval_def Let_def)
    next
      case False
      have "stagesConsistent (snd (makeUpdateAction c (EvalEvent g licenses) deal
          (map_option LicenseRecord (if licenses = [] then None else Some (last licenses)))
          None ?s2))"
        using c2 by (intro makeUpdateAction_consistent) auto
      with assms(2) Pair Some False show ?thesis
        by (auto simp: actionForEval_def Let_def)
    qed
  qed
qed

lemma actionForPurchase_consistent:
  assumes "stagesConsistent s" and "actionForPurchase c g licenses transaction s = Inr (a, s')"
  shows "stagesConsistent s'"
proof (cases "singleDeal (getDealsForRecords c (dealManager s)
            ((case transaction of None \<Rightarrow> [] | Some t \<Rightarrow> [TransactionRecord t])
             @ map LicenseRecord licenses)) s")
  case (Pair found s1)
  have c1: "stagesConsistent s1"
    using assms(1) singleDeal_consistent [of "getDealsForRecords c (dealManager s)
            ((case transaction of None \<Rightarrow> [] | Some t \<Rightarrow> [TransactionRecord t])
             @ map LicenseRecord licenses)" s]
    by (simp add: Pair)
  show ?thesis
  proof (cases found)
    case None
    with assms(2) Pair c1 show ?thesis
      by (auto simp: actionForPurchase_def Let_def split: option.splits)
  next
    case (Some deal)
    let ?s2 = "recordSeen deal (PurchaseEvent g licenses transaction) s1"
    let ?stage = "if isEval (heap ?s2 deal) then CLOSED_WON else dealStage (data (heap ?s2 deal))"
    have c2: "stagesConsistent ?s2" using c1 by (simp add: recordSeen_consistent)
    have "dealStage (synced (heap ?s2 deal)) = CLOSED_LOST \<longrightarrow> ?stage = CLOSED_LOST"
      using c2 by (auto simp: stagesConsistent_def lostStaysLost_def isEval_def)
    then have "stagesConsistent (snd (makeUpdateAction c (PurchaseEvent g licenses transaction) deal
        (case transaction of Some t \<Rightarrow> Some (TransactionRecord t)
         | None \<Rightarrow> map_option LicenseRecord (getLatestLicense licenses))
        (Some ?stage) ?s2))"
      using c2 by (intro makeUpdateAction_consistent) auto
    with assms(2) Pair Some show ?thesis
      by (auto simp: actionForPurchase_def Let_def split: if_splits)
  qed
qed

lemma actionForRenewal_consistent:
  assumes "stagesConsistent s"
  shows "stagesConsistent (snd (actionForRenewal c event transaction s))"
proof (cases "singleDeal (getDealsForRecords c (dealManager s) [TransactionRecord transaction]) s")
  case (Pair found s1)
  have c1: "stagesConsistent s1"
    using assms singleDeal_consistent
      [of "getDealsForRecords c (dealManager s) [TransactionRecord transaction]" s]
    by (simp add: Pair)
  show ?thesis
  proof (cases found)
    case None
    with Pair c1 show ?thesis by (simp add: actionForRenewal_def)
  next
    case (Some deal)
    have "stagesConsistent (snd (makeUpdateAction c event deal
        (Some (TransactionRecord transaction)) None (recordSeen deal event s1)))"
      using c1 by (intro makeUpdateAction_consistent) (auto simp: recordSeen_consistent)
    with Pair Some show ?thesis by (simp add: actionForRenewal_def)
  qed
qed

lemma refundUpdates_consistent:
  "stagesConsistent s \<Longrightarrow> stagesConsistent (snd (refundUpdates c event deals s))"
proof (induction deals arbitrary: s)
  case Nil
  then show ?case by simp
next
  case (Cons deal deals)
  have "stagesConsistent (snd (makeUpdateAction c event deal None (Some CLOSED_LOST) s))"
    using Cons.prems by (intro makeUpdateAction_consistent) auto
  then show ?case
    using Cons.IH [of "snd (makeUpdateAction c event deal None (Some CLOSED_LOST) s)"]
    by (auto split: prod.splits)
qed

lemma fold_recordSeen_consistent:
  "stagesConsistent (fold (\<lambda>deal. recordSeen deal event) deals s) = stagesConsistent s"
  by (simp add: stagesConsistent_def fold_recordSeen_heap)

lemma actionsFor_consistent:
  assumes "stagesConsistent s" and "actionsFor c event s = Inr (as, s')"
  shows "stagesConsistent s'"
proof (cases event)
  case (EvalEvent g licenses)
  with assms show ?thesis
    by (auto split: sum.splits dest: actionForEval_consistent)
next
  case (PurchaseEvent g licenses transaction)
  with assms show ?thesis
    by (auto split: sum.splits dest: actionForPurchase_consistent)
next
  case (RenewalEvent g transaction)
  with assms actionForRenewal_consistent [of s c event transaction] show ?thesis
    by (auto split: prod.splits)
next
  case (UpgradeEvent g transaction)
  with assms actionForRenewal_consistent [of s c event transaction] show ?thesis
    by (auto split: prod.splits)
next
  case (RefundEvent g refundedTxs)
  have "stagesConsistent (snd (actionsForRefund c g refundedTxs s))"
    using assms(1)
    by (simp add: actionsForRefund_def Let_def refundUpdates_consistent fold_recordSeen_consistent)
  with assms(2) RefundEvent show ?thesis by auto
qed

lemma generateFrom_consistent:
  "stagesConsistent s \<Longrightarrow> generateFrom c events s = Inr (as, s') \<Longrightarrow> stagesConsistent s'"
proof (induction events arbitrary: s as)
  case Nil
  then show ?case by simp
next
  case (Cons event events)
  from Cons.prems(2) obtain bs s1 cs where
    first: "actionsFor c event s = Inr (bs, s1)" and
    rest: "generateFrom c events s1 = Inr (cs, s')"
    by (auto split: sum.splits)
  have "stagesConsistent s1"
    using Cons.prems(1) first by (rule actionsFor_consistent)
  then show ?case using rest by (rule Cons.IH)
qed

text \<open>
  So in a run that starts from consistent deals, the action of a refund for a deal that is
  not in CLOSED_LOST has a change to report.
\<close>

lemma consistent_refund_changes:
  assumes "stagesConsistent s" and "dealStage (data (heap s deal)) \<noteq> CLOSED_LOST"
  shows "hasPropertyChanges (closeLost (heap s deal))"
proof -
  have "dealStage (synced (heap s deal)) \<noteq> CLOSED_LOST"
    using assms by (auto simp: stagesConsistent_def lostStaysLost_def)
  then show ?thesis by (simp add: closeLost_changes)
qed

section \<open>Properties of the contact generator\<close>

lemma sort_dsc_single: "sort_dsc key [x] = [x]"
  by (simp add: sort_dsc_def)

lemma sort_dsc_pair_newer_last:
  "key a < key b \<Longrightarrow> sort_dsc key [a, b] = [b, a]"
  by (auto simp: sort_dsc_def)

lemma sort_dsc_pair_newer_first:
  "key a < key b \<Longrightarrow> sort_dsc key [b, a] = [b, a]"
  by (auto simp: sort_dsc_def)

lemma mergeContactType_alone: "mergeContactType c [] = c"
  by (auto simp: mergeContactType_def)

lemma mergeName_alone: "mergeName c [] = c"
  by (simp add: mergeName_def)

lemma mergePhone_alone: "mergePhone c [] = c"
  by (simp add: mergePhone_def)

lemma mergeAddress_alone: "mergeAddress c [] = c"
  by (simp add: mergeAddress_def)

text \<open>
  C9. On a group of one contact, \<^verbatim>\<open>mergeContactProperties\<close> leaves the array with that
  one contact, every field of it as it was but the email, which is the given primary email.
\<close>

theorem mergeContactProperties_single:
  "mergeContactProperties primaryEmail [c] = Inr [c\<lparr>email := primaryEmail\<rparr>]"
  by (simp add: mergeContactProperties_def sort_dsc_single mergeContactType_alone
      mergeName_alone mergePhone_alone mergeAddress_alone)

lemma mergeContactType_pair:
  "mergeContactType b [a] =
     (if contact_type b = ''Customer'' \<and> contact_type a = ''Partner''
      then b\<lparr>contact_type := ''Partner''\<rparr> else b)"
  by (auto simp: mergeContactType_def)

lemma mergeName_pair:
  "mergeName b [a] =
     b\<lparr>firstname :=
         (if truthy (firstname b) \<and> truthy (lastname b) then firstname b
          else if truthy (firstname a) \<and> truthy (lastname a) then firstname a
          else if truthy (firstname b) then firstname b
          else if truthy (firstname a) then firstname a else firstname b),
       lastname :=
         (if truthy (firstname b) \<and> truthy (lastname b) then lastname b
          else if truthy (firstname a) \<and> truthy (lastname a) then lastname a
          else if truthy (lastname b) then lastname b
          else if truthy (lastname a) then lastname a else lastname b)\<rparr>"
  by (simp add: mergeName_def Let_def)

lemma mergePhone_pair:
  "mergePhone b [a] =
     b\<lparr>phone := (if truthy (phone b) then phone b
                 else if truthy (phone a) then phone a else phone b)\<rparr>"
  by (simp add: mergePhone_def)

lemma mergeAddress_pair:
  "mergeAddress b [a] =
     b\<lparr>city :=
         (if truthy (city b) \<and> truthy (state b) then city b
          else if truthy (city a) \<and> truthy (state a) then city a
          else if truthy (city b) then city b
          else if truthy (city a) then city a else city b),
       state :=
         (if truthy (city b) \<and> truthy (state b) then state b
          else if truthy (city a) \<and> truthy (state a) then state a
          else if truthy (state b) then state b
          else if truthy (state a) then state a else state b)\<rparr>"
  by (simp add: mergeAddress_def Let_def)

text \<open>
  C7. For a Partner contact A and a newer Customer contact B (the claim's \<open>updated = 3\<close>
  and \<open>updated = 5\<close>), merging \<open>[A, B]\<close> and merging \<open>[B, A]\<close> give the same array: B
  first, then A unchanged. The merged contact is B with the primary email and the type
  Partner; country, region, hosting and the other fields the merge does not touch are B's;
  names, phone and address are B's wherever B has them (both names, the phone, both city
  and state), and come from A only where B lacks them.
\<close>

theorem mergeContactProperties_order_independent:
  assumes "updated A < updated B"
    and "contact_type A = ''Partner''" and "contact_type B = ''Customer''"
  shows "mergeContactProperties primaryEmail [A, B] = mergeContactProperties primaryEmail [B, A]
    \<and> mergeContactProperties primaryEmail [A, B] =
        Inr [B\<lparr>email := primaryEmail,
               contact_type := ''Partner'',
               firstname :=
                 (if truthy (firstname B) \<and> truthy (lastname B) then firstname B
                  else if truthy (firstname A) \<and> truthy (lastname A) then firstname A
                  else if truthy (firstname B) then firstname B
                  else if truthy (firstname A) then firstname A else firstname B),
               lastname :=
                 (if truthy (firstname B) \<and> truthy (lastname B) then lastname B
                  else if truthy (firstname A) \<and> truthy (lastname A) then lastname A
                  else if truthy (lastname B) then lastname B
                  else if truthy (lastname A) then lastname A else lastname B),
               phone :=
                 (if truthy (phone B) then phone B
                  else if truthy (phone A) then phone A else phone B),
               city :=
                 (if truthy (city B) \<and> truthy (state B) then city B
                  else if truthy (city A) \<and> truthy (state A) then city A
                  else if truthy (city B) then city B
                  else if truthy (city A) then city A else city B),
               state :=
                 (if truthy (city B) \<and> truthy (state B) then state B
                  else if truthy (city A) \<and> truthy (state A) then state A
                  else if truthy (state B) then state B
                  else if truthy (state A) then state A else state B)\<rparr>,
             A]"
proof -
  have ab: "sort_dsc updated [A, B] = [B, A]"
    using assms(1) by (rule sort_dsc_pair_newer_last)
  have ba: "sort_dsc updated [B, A] = [B, A]"
    using assms(1) by (rule sort_dsc_pair_newer_first)
  have same: "mergeContactProperties primaryEmail [A, B] = mergeContactProperties primaryEmail [B, A]"
    by (simp only: mergeContactProperties_def ab ba)
  have "mergeContactProperties primaryEmail [A, B] =
      Inr [mergeAddress (mergePhone (mergeName (mergeContactType (B\<lparr>email := primaryEmail\<rparr>) [A])
             [A]) [A]) [A], A]"
    by (simp only: mergeContactProperties_def ab list.case)
  then show ?thesis
    using same assms(2,3)
    by (simp add: mergeContactType_pair mergeName_pair mergePhone_pair mergeAddress_pair)
qed

lemma set_firstOccurrences: "set (firstOccurrences xs) = set xs"
  by (induction xs) auto

lemma foldAlias_keeps_absent:
  "map_of m k = None \<Longrightarrow> map_of (foldAlias e other m) k = None"
  by (auto simp: foldAlias_def map_of_map_entry delete_conv' split: option.splits)

lemma foldAlias_removes: "map_of (foldAlias e other m) other = None"
  by (auto simp: foldAlias_def map_of_map_entry delete_conv' split: option.splits)

lemma fold_foldAlias_keeps_absent:
  "map_of m k = None \<Longrightarrow> map_of (fold (foldAlias e) others m) k = None"
  by (induction others arbitrary: m) (simp_all add: foldAlias_keeps_absent)

lemma fold_foldAlias_removes:
  "k \<in> set others \<Longrightarrow> map_of (fold (foldAlias e) others m) k = None"
proof (induction others arbitrary: m)
  case Nil
  then show ?case by simp
next
  case (Cons other others)
  show ?case
  proof (cases "k = other")
    case True
    then show ?thesis
      by (simp add: fold_foldAlias_keeps_absent foldAlias_removes)
  next
    case False
    with Cons.prems have "k \<in> set others" by simp
    then show ?thesis using Cons.IH by simp
  qed
qed

lemma foldAlias_primary:
  "other \<noteq> e \<Longrightarrow>
     map_of (foldAlias e other m) e = map_option (\<lambda>ps. ps @ groupOf m other) (map_of m e)"
  by (auto simp: foldAlias_def groupOf_def map_of_map_entry delete_conv' option.map_ident
      split: option.splits)

lemma foldAlias_other_keys:
  "k \<noteq> other \<Longrightarrow> k \<noteq> e \<Longrightarrow> map_of (foldAlias e other m) k = map_of m k"
  by (auto simp: foldAlias_def map_of_map_entry delete_conv' split: option.splits)

lemma groupOf_foldAlias:
  "k \<noteq> e \<Longrightarrow> groupOf (foldAlias e other m) k = (if k = other then [] else groupOf m k)"
  by (simp add: groupOf_def foldAlias_removes foldAlias_other_keys)

lemma concat_groups_after_foldAlias:
  "e \<notin> set xs \<Longrightarrow>
     concat (map (groupOf (foldAlias e other m)) xs) =
     concat (map (groupOf m) (filter (\<lambda>y. y \<noteq> other) xs))"
  by (induction xs) (auto simp: groupOf_foldAlias)

lemma fold_foldAlias_primary:
  "e \<notin> set others \<Longrightarrow>
     map_of (fold (foldAlias e) others m) e =
       map_option (\<lambda>ps. ps @ concat (map (groupOf m) (firstOccurrences others))) (map_of m e)"
proof (induction others arbitrary: m)
  case Nil
  then show ?case by (simp add: option.map_ident)
next
  case (Cons other others)
  then have ne: "other \<noteq> e" and notin: "e \<notin> set others" by auto
  have "map_of (fold (foldAlias e) (other # others) m) e =
      map_option (\<lambda>ps. ps @ concat (map (groupOf (foldAlias e other m)) (firstOccurrences others)))
        (map_of (foldAlias e other m) e)"
    using Cons.IH [OF notin] by simp
  also have "concat (map (groupOf (foldAlias e other m)) (firstOccurrences others)) =
      concat (map (groupOf m) (filter (\<lambda>y. y \<noteq> other) (firstOccurrences others)))"
    using notin by (intro concat_groups_after_foldAlias) (simp add: set_firstOccurrences)
  finally show ?case
    using ne by (simp add: foldAlias_primary option.map_comp comp_def)
qed

lemma fold_foldAlias_other_keys:
  "k \<notin> set others \<Longrightarrow> k \<noteq> e \<Longrightarrow> map_of (fold (foldAlias e) others m) k = map_of m k"
  by (induction others arbitrary: m) (simp_all add: foldAlias_other_keys)

lemma mergeAllAliases_append:
  "mergeAllAliases before m0 = Inr m \<Longrightarrow>
     mergeAllAliases (before @ rest) m0 = mergeAllAliases rest m"
  by (induction before arbitrary: m0) (auto split: sum.splits)

text \<open>
  C6. The step of \<^verbatim>\<open>mergeDuplicateContacts\<close> for one initial contact that has alias
  emails, on the map \<open>m\<close> of groups at that moment. When the primary email has a group, the
  step succeeds and no alias email has a group afterwards; for a primary email that is not
  among its own aliases, the primary group is then the old one followed by the alias groups
  in the order of the aliases, and every other group is untouched. When the primary email
  has no group, the step changes nothing if no alias has a group, and otherwise fails with
  an AssertionError, which ends the whole loop over the initial contacts.
\<close>

theorem mergeAliasesOf_alias_groups:
  assumes "otherEmails contact \<noteq> []"
  shows "(map_of m (contactEmail contact) \<noteq> None \<longrightarrow>
           (\<exists>m'. mergeAliasesOf contact m = Inr m'
              \<and> (\<forall>other \<in> set (otherEmails contact). map_of m' other = None)
              \<and> (contactEmail contact \<notin> set (otherEmails contact) \<longrightarrow>
                   map_of m' (contactEmail contact) =
                     Some (groupOf m (contactEmail contact)
                           @ concat (map (groupOf m) (firstOccurrences (otherEmails contact))))
                 \<and> (\<forall>k. k \<noteq> contactEmail contact \<and> k \<notin> set (otherEmails contact) \<longrightarrow>
                        map_of m' k = map_of m k))))
       \<and> (map_of m (contactEmail contact) = None \<longrightarrow>
            ((\<forall>other \<in> set (otherEmails contact). map_of m other = None) \<longrightarrow>
               mergeAliasesOf contact m = Inr m)
          \<and> ((\<exists>other \<in> set (otherEmails contact). map_of m other \<noteq> None) \<longrightarrow>
               mergeAliasesOf contact m = Inl AssertionError
             \<and> (\<forall>before after m0. mergeAllAliases before m0 = Inr m \<longrightarrow>
                   mergeAllAliases (before @ contact # after) m0 = Inl AssertionError)))"
proof (cases "map_of m (contactEmail contact)")
  case None
  have "(\<exists>other \<in> set (otherEmails contact). map_of m other \<noteq> None) \<Longrightarrow>
      mergeAliasesOf contact m = Inl AssertionError"
    using assms None by (auto simp: mergeAliasesOf_def list_all_iff)
  moreover have "(\<forall>other \<in> set (otherEmails contact). map_of m other = None) \<Longrightarrow>
      mergeAliasesOf contact m = Inr m"
    using assms None by (auto simp: mergeAliasesOf_def list_all_iff)
  ultimately show ?thesis
    using None by (auto simp: mergeAllAliases_append)
next
  case (Some primarySet)
  let ?m' = "fold (foldAlias (contactEmail contact)) (otherEmails contact) m"
  have run: "mergeAliasesOf contact m = Inr ?m'"
    using assms Some by (simp add: mergeAliasesOf_def)
  have gone: "\<forall>other \<in> set (otherEmails contact). map_of ?m' other = None"
    by (simp add: fold_foldAlias_removes)
  have folded: "contactEmail contact \<notin> set (otherEmails contact) \<Longrightarrow>
      map_of ?m' (contactEmail contact) =
        Some (groupOf m (contactEmail contact)
              @ concat (map (groupOf m) (firstOccurrences (otherEmails contact))))"
    using Some by (simp add: fold_foldAlias_primary groupOf_def)
  have others: "\<forall>k. k \<noteq> contactEmail contact \<and> k \<notin> set (otherEmails contact) \<longrightarrow>
      map_of ?m' k = map_of m k"
    by (simp add: fold_foldAlias_other_keys)
  show ?thesis
    using Some run gone folded others by simp
qed

text \<open>
  C5. Every contact that \<^verbatim>\<open>generateContacts\<close> returns passes its final assertion:
  contact type, country, region, hosting and email are non-empty strings; first name, last
  name, phone, city and state are null or non-empty; deployment, last_mpac_event,
  license_tier and related_products are undefined. The \<^verbatim>\<open>updated\<close> field is gone: the
  returned contacts are of the type without it.
\<close>

theorem generateContacts_valid:
  assumes "generateContacts h licenses transactions initialContacts partnerDomains = Inr finalContacts"
  shows "\<forall>c \<in> set finalContacts.
           contact_type c \<noteq> [] \<and> country c \<noteq> [] \<and> region c \<noteq> [] \<and> hosting c \<noteq> []
         \<and> email c \<noteq> []
         \<and> (firstname c = None \<or> (\<exists>s. firstname c = Some s \<and> s \<noteq> []))
         \<and> (lastname c = None \<or> (\<exists>s. lastname c = Some s \<and> s \<noteq> []))
         \<and> (phone c = None \<or> (\<exists>s. phone c = Some s \<and> s \<noteq> []))
         \<and> (city c = None \<or> (\<exists>s. city c = Some s \<and> s \<noteq> []))
         \<and> (state c = None \<or> (\<exists>s. state c = Some s \<and> s \<noteq> []))
         \<and> deployment c = None \<and> last_mpac_event c = None \<and> license_tier c = None
         \<and> related_products c = None"
proof
  fix c
  assume c: "c \<in> set finalContacts"
  have "list_all validContact finalContacts"
    using assms by (auto simp: generateContacts_def split: sum.splits if_splits)
  then have "validContact c"
    using c by (simp add: list_all_iff)
  then show "contact_type c \<noteq> [] \<and> country c \<noteq> [] \<and> region c \<noteq> [] \<and> hosting c \<noteq> []
         \<and> email c \<noteq> []
         \<and> (firstname c = None \<or> (\<exists>s. firstname c = Some s \<and> s \<noteq> []))
         \<and> (lastname c = None \<or> (\<exists>s. lastname c = Some s \<and> s \<noteq> []))
         \<and> (phone c = None \<or> (\<exists>s. phone c = Some s \<and> s \<noteq> []))
         \<and> (city c = None \<or> (\<exists>s. city c = Some s \<and> s \<noteq> []))
         \<and> (state c = None \<or> (\<exists>s. state c = Some s \<and> s \<noteq> []))
         \<and> deployment c = None \<and> last_mpac_event c = None \<and> license_tier c = None
         \<and> related_products c = None"
    by (auto simp: validContact_def nullOrNonEmpty_def split: option.splits)
qed

lemma example_normalizeContacts:
  "normalizeContacts exampleHelpers [exampleMarketplaceLicense] [] {} =
     [exampleContact ''a@x.com'' (Some ''Jo'') (Some ''Smith'') ''Customer'' ''2020-01-01'']"
  by (simp add: normalizeContacts_def contactsOf_def mapCommonFields_def exampleHelpers_def
      exampleMarketplaceLicense_def exampleInfo_def exampleContact_def capitalizedOrNull_def
      Let_def)

theorem generateContacts_valid_witness:
  "generateContacts exampleHelpers [exampleMarketplaceLicense] [] [] {} =
     Inr [GeneratedContact.truncate
            (exampleContact ''a@x.com'' (Some ''Jo'') (Some ''Smith'') ''Customer'' ''2020-01-01'')]
   \<and> email (GeneratedContact.truncate
        (exampleContact ''a@x.com'' (Some ''Jo'') (Some ''Smith'') ''Customer'' ''2020-01-01'')) \<noteq> []
   \<and> firstname (GeneratedContact.truncate
        (exampleContact ''a@x.com'' (Some ''Jo'') (Some ''Smith'') ''Customer'' ''2020-01-01''))
       = Some ''Jo''
   \<and> deployment (GeneratedContact.truncate
        (exampleContact ''a@x.com'' (Some ''Jo'') (Some ''Smith'') ''Customer'' ''2020-01-01''))
       = None"
proof -
  have run: "generateContacts exampleHelpers [exampleMarketplaceLicense] [] [] {} =
     Inr [GeneratedContact.truncate
            (exampleContact ''a@x.com'' (Some ''Jo'') (Some ''Smith'') ''Customer'' ''2020-01-01'')]"
    by (simp add: generateContacts_def example_normalizeContacts mergeDuplicateContacts_def
        addContact_def validContact_def nullOrNonEmpty_def GeneratedContact.truncate_def
        exampleContact_def)
  show ?thesis
    using generateContacts_valid [OF run] run
    by (simp add: GeneratedContact.truncate_def exampleContact_def)
qed

theorem mergeAliasesOf_alias_groups_witness:
  "otherEmails exampleAlias \<noteq> []
   \<and> map_of exampleMap (contactEmail exampleAlias) \<noteq> None
   \<and> contactEmail exampleAlias \<notin> set (otherEmails exampleAlias)
   \<and> (\<exists>m'. mergeAliasesOf exampleAlias exampleMap = Inr m'
         \<and> map_of m' ''b@x.com'' = None
         \<and> map_of m' ''a@x.com'' =
             Some [exampleContact ''a@x.com'' (Some ''Jo'') None ''Customer'' ''2020-01-01'',
                   exampleContact ''b@x.com'' None (Some ''Smith'') ''Customer'' ''2020-06-01''])"
proof -
  have aliases: "otherEmails exampleAlias \<noteq> []"
    by (simp add: exampleAlias_def)
  have "map_of exampleMap (contactEmail exampleAlias) \<noteq> None"
    "contactEmail exampleAlias \<notin> set (otherEmails exampleAlias)"
    "groupOf exampleMap ''a@x.com'' =
       [exampleContact ''a@x.com'' (Some ''Jo'') None ''Customer'' ''2020-01-01'']"
    "groupOf exampleMap ''b@x.com'' =
       [exampleContact ''b@x.com'' None (Some ''Smith'') ''Customer'' ''2020-06-01'']"
    "otherEmails exampleAlias = [''b@x.com'']" "contactEmail exampleAlias = ''a@x.com''"
    by (simp_all add: exampleAlias_def exampleMap_def groupOf_def)
  then show ?thesis
    using mergeAliasesOf_alias_groups [OF aliases, of exampleMap] by auto
qed

theorem mergeContactProperties_order_independent_witness:
  "updated (exampleContact ''old@x.com'' (Some ''Jo'') None ''Partner'' ''3'')
     < updated (exampleContact ''a@x.com'' None (Some ''Smith'') ''Customer'' ''5'')
   \<and> contact_type (exampleContact ''old@x.com'' (Some ''Jo'') None ''Partner'' ''3'') = ''Partner''
   \<and> contact_type (exampleContact ''a@x.com'' None (Some ''Smith'') ''Customer'' ''5'') = ''Customer''
   \<and> mergeContactProperties ''a@x.com''
        [exampleContact ''old@x.com'' (Some ''Jo'') None ''Partner'' ''3'',
         exampleContact ''a@x.com'' None (Some ''Smith'') ''Customer'' ''5'']
     = mergeContactProperties ''a@x.com''
        [exampleContact ''a@x.com'' None (Some ''Smith'') ''Customer'' ''5'',
         exampleContact ''old@x.com'' (Some ''Jo'') None ''Partner'' ''3'']
   \<and> mergeContactProperties ''a@x.com''
        [exampleContact ''old@x.com'' (Some ''Jo'') None ''Partner'' ''3'',
         exampleContact ''a@x.com'' None (Some ''Smith'') ''Customer'' ''5'']
     = Inr [exampleContact ''a@x.com'' (Some ''Jo'') (Some ''Smith'') ''Partner'' ''5'',
            exampleContact ''old@x.com'' (Some ''Jo'') None ''Partner'' ''3'']"
proof -
  have newer: "updated (exampleContact ''old@x.com'' (Some ''Jo'') None ''Partner'' ''3'')
     < updated (exampleContact ''a@x.com'' None (Some ''Smith'') ''Customer'' ''5'')"
    by (simp add: exampleContact_def)
  have partner:
    "contact_type (exampleContact ''old@x.com'' (Some ''Jo'') None ''Partner'' ''3'') = ''Partner''"
    by (simp add: exampleContact_def)
  have customer:
    "contact_type (exampleContact ''a@x.com'' None (Some ''Smith'') ''Customer'' ''5'') = ''Customer''"
    by (simp add: exampleContact_def)
  note merged =
    mergeContactProperties_order_independent [OF newer partner customer, of "''a@x.com''"]
  have same: "mergeContactProperties ''a@x.com''
        [exampleContact ''old@x.com'' (Some ''Jo'') None ''Partner'' ''3'',
         exampleContact ''a@x.com'' None (Some ''Smith'') ''Customer'' ''5'']
     = mergeContactProperties ''a@x.com''
        [exampleContact ''a@x.com'' None (Some ''Smith'') ''Customer'' ''5'',
         exampleContact ''old@x.com'' (Some ''Jo'') None ''Partner'' ''3'']"
    using merged by (rule conjunct1)
  have result: "mergeContactProperties ''a@x.com''
        [exampleContact ''old@x.com'' (Some ''Jo'') None ''Partner'' ''3'',
         exampleContact ''a@x.com'' None (Some ''Smith'') ''Customer'' ''5'']
     = Inr [exampleContact ''a@x.com'' (Some ''Jo'') (Some ''Smith'') ''Partner'' ''5'',
            exampleContact ''old@x.com'' (Some ''Jo'') None ''Partner'' ''3'']"
    by (subst conjunct2 [OF merged]) (simp add: exampleContact_def truthy_def)
  show ?thesis
    using newer partner customer same result by (intro conjI)
qed

end
